theory Spec2Isabelle
  imports Complex_Main
begin

section \<open>Python values, exceptions and decoded frames\<close>

text \<open>
  The analytics engine of \<^verbatim>\<open>trans_sec/analytics/oinc.py\<close> works on frames decoded by the
  capture library. A frame is a stack of layers; \<^verbatim>\<open>packet[Cls]\<close> returns the first layer of
  class \<^verbatim>\<open>Cls\<close> and raises \<^verbatim>\<open>IndexError\<close> when there is none, and reading an attribute a
  layer does not have raises \<^verbatim>\<open>AttributeError\<close>. Every raise of the source is a value
  \<open>Inl e\<close> of the model, and \<^verbatim>\<open>try: ... except Exception\<close> is the combinator
  \<open>try_except\<close>.

  Clock readings (\<^verbatim>\<open>datetime.now()\<close>, \<^verbatim>\<open>datetime.today()\<close>, \<^verbatim>\<open>time.time()\<close>) are exact
  rational numbers of seconds, inputs of each call; the rounding of Python's floats is
  not modelled.
\<close>

datatype pyval = PNone | PStr string | PInt int

datatype py_error =
    IndexError | AttributeError | KeyError | ZeroDivisionError | CountError
  | PostError | HopsError string

type_synonym pydict = "(string \<times> pyval) list"

datatype layer_cls =
    Ether | IP | UDP
  | SwitchINTHeaderMeta | SwitchINTInspect | GatewayINTHeaderMeta | GatewayINTInspect
  | IntShim | IntHeader | IntMeta1 | IntMeta2 | SourceIntMeta

record packet =
  layers :: "(layer_cls \<times> pydict) list"
  wirelen :: nat

definition bindE :: "py_error + 'a \<Rightarrow> ('a \<Rightarrow> py_error + 'b) \<Rightarrow> py_error + 'b" where
  "bindE m f = (case m of Inl e \<Rightarrow> Inl e | Inr x \<Rightarrow> f x)"

definition try_except :: "py_error + 'a \<Rightarrow> (py_error \<Rightarrow> py_error + 'a) \<Rightarrow> py_error + 'a" where
  "try_except body handler = (case body of Inl e \<Rightarrow> handler e | Inr x \<Rightarrow> Inr x)"

text \<open>\<^verbatim>\<open>packet[cls]\<close>\<close>

definition getlayer :: "packet \<Rightarrow> layer_cls \<Rightarrow> py_error + pydict" where
  "getlayer p c =
     (case find (\<lambda>l. fst l = c) (layers p) of
        None \<Rightarrow> Inl IndexError
      | Some l \<Rightarrow> Inr (snd l))"

text \<open>\<^verbatim>\<open>layer.name\<close>\<close>

definition getattr :: "pydict \<Rightarrow> string \<Rightarrow> py_error + pyval" where
  "getattr fs n = (case map_of fs n of None \<Rightarrow> Inl AttributeError | Some v \<Rightarrow> Inr v)"

text \<open>\<^verbatim>\<open>packet[cls].name\<close>\<close>

definition field :: "packet \<Rightarrow> layer_cls \<Rightarrow> string \<Rightarrow> py_error + pyval" where
  "field p c n = bindE (getlayer p c) (\<lambda>fs. getattr fs n)"

text \<open>\<^verbatim>\<open>d.get(k)\<close> and \<^verbatim>\<open>d[k]\<close> on a dict.\<close>

definition dict_get :: "pydict \<Rightarrow> string \<Rightarrow> pyval" where
  "dict_get d k = (case map_of d k of None \<Rightarrow> PNone | Some v \<Rightarrow> v)"

definition dict_item :: "pydict \<Rightarrow> string \<Rightarrow> py_error + pyval" where
  "dict_item d k = (case map_of d k of None \<Rightarrow> Inl KeyError | Some v \<Rightarrow> Inr v)"

section \<open>Flow record extraction\<close>

text \<open>
  \<^verbatim>\<open>log_int_packet\<close> only writes debug lines; what matters is which reads it makes and
  that its \<^verbatim>\<open>except Exception\<close> swallows every failure of them.
\<close>

definition log_int_packet_body :: "packet \<Rightarrow> py_error + unit" where
  "log_int_packet_body p =
     bindE (field p Ether ''dst'') (\<lambda>_.
     bindE (field p Ether ''src'') (\<lambda>_.
     bindE (field p Ether ''type'') (\<lambda>_.
     bindE (field p SwitchINTHeaderMeta ''max_hops'') (\<lambda>_.
     bindE (field p SwitchINTHeaderMeta ''total_hops'') (\<lambda>_.
     bindE (field p SwitchINTHeaderMeta ''next_proto'') (\<lambda>_.
     bindE (field p SwitchINTInspect ''switch_id'') (\<lambda>_.
     bindE (field p GatewayINTHeaderMeta ''ver'') (\<lambda>_.
     bindE (field p GatewayINTHeaderMeta ''max_hops'') (\<lambda>_.
     bindE (field p GatewayINTHeaderMeta ''total_hops'') (\<lambda>_.
     bindE (field p GatewayINTHeaderMeta ''next_proto'') (\<lambda>_.
     bindE (field p GatewayINTInspect ''src_mac'') (\<lambda>_.
     bindE (field p IP ''src'') (\<lambda>_.
     bindE (field p IP ''dst'') (\<lambda>_.
     bindE (field p IP ''proto'') (\<lambda>_.
     bindE (field p UDP ''dport'') (\<lambda>_. Inr ()))))))))))))))))"

definition log_int_packet :: "packet \<Rightarrow> py_error + unit" where
  "log_int_packet p = try_except (log_int_packet_body p) (\<lambda>e. Inr ())"

text \<open>The keyword arguments of \<^verbatim>\<open>dict(devMac=..., ...)\<close>, evaluated in order.\<close>

definition extract_fields :: "packet \<Rightarrow> py_error + pydict" where
  "extract_fields p =
     bindE (field p GatewayINTInspect ''src_mac'') (\<lambda>devMac.
     bindE (field p IP ''src'') (\<lambda>devAddr.
     bindE (field p SwitchINTInspect ''switch_id'') (\<lambda>switchId.
     bindE (field p IP ''dst'') (\<lambda>dstAddr.
     bindE (field p UDP ''dport'') (\<lambda>dstPort.
     bindE (field p IP ''proto'') (\<lambda>protocol.
       Inr [(''devMac'', devMac), (''devAddr'', devAddr), (''switchId'', switchId),
            (''dstAddr'', dstAddr), (''dstPort'', dstPort), (''protocol'', protocol),
            (''packetLen'', PInt (int (wirelen p)))]))))))"

definition extract_int_data :: "packet \<Rightarrow> py_error + pydict option" where
  "extract_int_data p =
     bindE (log_int_packet p) (\<lambda>_.
       try_except (bindE (extract_fields p) (\<lambda>out. Inr (Some out))) (\<lambda>e. Inr None))"


section \<open>The engine's shared state and the notifier\<close>

text \<open>
  \<^verbatim>\<open>PacketAnalytics.__init__\<close> stores the configuration; \<^verbatim>\<open>_send_attack\<close> posts the attack
  report to the SDN controller. The model keeps the reports handed to
  \<^verbatim>\<open>sdn_interface.post\<close>, in call order, in \<open>posted\<close>; whether a call raises is an input
  (\<open>post_ok\<close>).
\<close>

definition send_attack :: "bool \<Rightarrow> pydict list \<Rightarrow> pydict \<Rightarrow> (py_error + unit) \<times> pydict list" where
  "send_attack post_ok posted attack_dict =
     ((if post_ok then Inr () else Inl PostError), posted @ [attack_dict])"

section \<open>SimpleAE: counting per hash of the extracted record\<close>

text \<open>
  \<open>analytics\<close> holds what \<^verbatim>\<open>PacketAnalytics.__init__\<close> sets for every engine (with the
  reports posted so far); each engine extends it with its own store.
\<close>

record analytics =
  packet_count :: int
  sample_interval :: int
  posted :: "pydict list"

record 'k simple_ae = analytics +
  count_map :: "'k \<rightharpoonup> rat list"
  attack_map :: "'k \<rightharpoonup> rat"

text \<open>\<^verbatim>\<open>SimpleAE(sdn_interface, packet_count, sample_interval)\<close>\<close>

definition simple_ae_init :: "int \<Rightarrow> int \<Rightarrow> 'k simple_ae" where
  "simple_ae_init pc si =
     \<lparr>packet_count = pc, sample_interval = si, posted = [],
      count_map = Map.empty, attack_map = Map.empty\<rparr>"

text \<open>
  The clock readings and the notifier's outcome of one call of \<^verbatim>\<open>__process\<close>:
  \<open>curr_time\<close> is \<^verbatim>\<open>datetime.datetime.now()\<close>, \<open>time_check\<close> the \<^verbatim>\<open>time.time()\<close> of the
  debounce test and \<open>time_set\<close> the \<^verbatim>\<open>time.time()\<close> stored in \<^verbatim>\<open>attack_map\<close>.
\<close>

record call_env =
  curr_time :: rat
  time_check :: rat
  time_set :: rat
  post_ok :: bool

text \<open>
  The loop \<^verbatim>\<open>for eval_time in times\<close>, which removes from \<^verbatim>\<open>times\<close> while it iterates over
  it. Python's list iterator holds an index \<open>i\<close> into the live list and stops when
  \<open>i\<close> reaches its current length; \<^verbatim>\<open>times.remove(x)\<close> deletes the first element equal to
  \<open>x\<close>.
\<close>

function count_loop :: "rat \<Rightarrow> int \<Rightarrow> nat \<Rightarrow> rat list \<Rightarrow> int \<Rightarrow> rat list \<times> int" where
  "count_loop cur si i tms count =
     (if i < length tms then
        (let eval_time = tms ! i; delta = cur - eval_time in
         if delta > of_int si
         then count_loop cur si (Suc i) (remove1 eval_time tms) count
         else count_loop cur si (Suc i) tms (count + 1))
      else (tms, count))"
  by pat_completeness auto
termination
  by (relation "measure (\<lambda>(cur, si, i, tms, count). length tms - i)")
     (auto simp: length_remove1)

declare count_loop.simps [simp del]

text \<open>\<^verbatim>\<open>not x\<close> on what \<^verbatim>\<open>dict.get\<close> returned: \<^verbatim>\<open>None\<close>, an empty list and \<^verbatim>\<open>0.0\<close> are falsy.\<close>

definition falsy_list :: "rat list option \<Rightarrow> bool" where
  "falsy_list v = (case v of None \<Rightarrow> True | Some xs \<Rightarrow> xs = [])"

definition falsy_time :: "rat option \<Rightarrow> bool" where
  "falsy_time v = (case v of None \<Rightarrow> True | Some t \<Rightarrow> t = 0)"

definition make_attack_dict :: "pydict \<Rightarrow> py_error + pydict" where
  "make_attack_dict int_data =
     bindE (dict_item int_data ''devMac'') (\<lambda>src_mac.
     bindE (dict_item int_data ''devAddr'') (\<lambda>src_ip.
     bindE (dict_item int_data ''dstAddr'') (\<lambda>dst_ip.
     bindE (dict_item int_data ''dstPort'') (\<lambda>dst_port.
     bindE (dict_item int_data ''packetLen'') (\<lambda>packet_size.
       Inr [(''src_mac'', src_mac), (''src_ip'', src_ip), (''dst_ip'', dst_ip),
            (''dst_port'', dst_port), (''packet_size'', packet_size),
            (''attack_type'', PStr ''UDP Flood'')])))))"

text \<open>
  The first half of \<^verbatim>\<open>SimpleAE.__process\<close>: the timestamp list of the key after the
  append and the loop, and the count the loop computed. \<open>key_of\<close> stands for
  \<^verbatim>\<open>hash(str(int_data))\<close>.
\<close>

definition observe :: "call_env \<Rightarrow> 'k simple_ae \<Rightarrow> 'k \<Rightarrow> rat list \<times> int" where
  "observe env s attack_map_key =
     (let cm = (if falsy_list (count_map s attack_map_key)
                then (count_map s)(attack_map_key \<mapsto> [])
                else count_map s);
          tms = (case cm attack_map_key of None \<Rightarrow> [] | Some ts \<Rightarrow> ts) @ [curr_time env]
      in count_loop (curr_time env) (sample_interval s) 0 tms 0)"

text \<open>\<^verbatim>\<open>SimpleAE.__process(int_data)\<close>: the value returned (or the exception) and the state
  left behind.\<close>

definition process :: "(pydict \<Rightarrow> 'k) \<Rightarrow> call_env \<Rightarrow> 'k simple_ae \<Rightarrow> pydict \<Rightarrow>
    (py_error + bool) \<times> 'k simple_ae" where
  "process key_of env s int_data =
     (let attack_map_key = key_of int_data;
          (tms, count) = observe env s attack_map_key;
          s1 = s\<lparr>count_map := (count_map s)(attack_map_key \<mapsto> tms)\<rparr>
      in if count > packet_count s1 then
           (case make_attack_dict int_data of
              Inl e \<Rightarrow> (Inl e, s1)
            | Inr attack_dict \<Rightarrow>
                (let last_attack = attack_map s1 attack_map_key in
                 if falsy_time last_attack \<or> time_check env - the last_attack > 1 then
                   (let s2 = s1\<lparr>attack_map := (attack_map s1)(attack_map_key \<mapsto> time_set env)\<rparr>;
                        (r, ps) = send_attack (post_ok env) (posted s2) attack_dict;
                        s3 = s2\<lparr>posted := ps\<rparr>
                    in (case r of Inl e \<Rightarrow> (Inr False, s3) | Inr _ \<Rightarrow> (Inr True, s3)))
                 else (Inr False, s1)))
         else (Inr False, s1))"

text \<open>\<^verbatim>\<open>SimpleAE.process_packet(packet, ip_proto)\<close>\<close>

definition process_packet :: "(pydict \<Rightarrow> 'k) \<Rightarrow> call_env \<Rightarrow> 'k simple_ae \<Rightarrow> packet \<Rightarrow> pyval \<Rightarrow>
    (py_error + bool) \<times> 'k simple_ae" where
  "process_packet key_of env s p ip_proto =
     (let protocol = (case field p IP ''proto'' of Inl e \<Rightarrow> PNone | Inr v \<Rightarrow> v) in
      if protocol = ip_proto then
        (case extract_int_data p of
           Inl e \<Rightarrow> (Inl e, s)
         | Inr int_data \<Rightarrow>
             (case int_data of
                None \<Rightarrow> (Inr False, s)
              | Some d \<Rightarrow> if d = [] then (Inr False, s) else process key_of env s d))
      else (Inr False, s))"

text \<open>\<^verbatim>\<open>handle_packet\<close> on each frame the sniffer delivers, stopping at an exception.\<close>

fun handle_packets :: "(pydict \<Rightarrow> 'k) \<Rightarrow> pyval \<Rightarrow> 'k simple_ae \<Rightarrow> (packet \<times> call_env) list \<Rightarrow>
    (py_error + bool list) \<times> 'k simple_ae" where
  "handle_packets key_of ip_proto s [] = (Inr [], s)"
| "handle_packets key_of ip_proto s ((p, env) # rest) =
     (case process_packet key_of env s p ip_proto of
        (Inl e, s') \<Rightarrow> (Inl e, s')
      | (Inr b, s') \<Rightarrow>
          (case handle_packets key_of ip_proto s' rest of
             (Inl e, s'') \<Rightarrow> (Inl e, s'')
           | (Inr bs, s'') \<Rightarrow> (Inr (b # bs), s'')))"

section \<open>Oinc: counting in a tree of flows\<close>

text \<open>
  The tree is an \<^verbatim>\<open>anytree\<close> tree of named nodes. No code of the engine builds a node
  other than the root; the attributes of a counter node are those that
  \<^verbatim>\<open>__packet_with_mac\<close> and \<^verbatim>\<open>__manage_tree\<close> read: \<^verbatim>\<open>value\<close>, \<^verbatim>\<open>time\<close>, \<^verbatim>\<open>pps\<close> and
  \<^verbatim>\<open>attack\<close>. A node without them has \<open>attrs = None\<close>.
\<close>

record counter =
  c_value :: int
  c_time :: rat
  c_pps :: rat
  c_attack :: bool

datatype node = Node (name: pyval) (attrs: "counter option") (children: "node list")

record oinc = analytics +
  tree :: node

text \<open>\<^verbatim>\<open>Oinc(sdn_interface, packet_count, sample_interval)\<close>: the tree is \<^verbatim>\<open>Node('root')\<close>.\<close>

definition oinc_init :: "int \<Rightarrow> int \<Rightarrow> oinc" where
  "oinc_init pc si =
     \<lparr>packet_count = pc, sample_interval = si, posted = [],
      tree = Node (PStr ''root'') None []\<rparr>"

text \<open>A node is addressed by the child indices leading to it from the root.\<close>

fun subtree :: "node \<Rightarrow> nat list \<Rightarrow> node" where
  "subtree n [] = n"
| "subtree n (i # path) = subtree (children n ! i) path"

fun update_at :: "nat list \<Rightarrow> (node \<Rightarrow> node) \<Rightarrow> node \<Rightarrow> node" where
  "update_at [] f n = f n"
| "update_at (i # path) f (Node nm a cs) =
     Node nm a (if i < length cs then cs[i := update_at path f (cs ! i)] else cs)"

text \<open>
  \<^verbatim>\<open>search.findall_by_attr(node, value, name='name', maxlevel=2, maxcount=1)\<close>: the nodes
  named \<open>value\<close> among \<open>node\<close> and its children, in pre-order, as positions below \<open>node\<close>;
  more than one match raises \<^verbatim>\<open>CountError\<close>.
\<close>

definition findall_by_attr :: "node \<Rightarrow> pyval \<Rightarrow> py_error + nat list list" where
  "findall_by_attr n v =
     (let result = (if name n = v then [[]] else []) @
                   map (\<lambda>i. [i]) (filter (\<lambda>i. name (children n ! i) = v) [0..<length (children n)])
      in if length result > 1 then Inl CountError else Inr result)"

type_synonym found = "nat list option"

text \<open>\<^verbatim>\<open>Oinc.__parse_tree(packet)\<close>: the nodes found, each as its path from the root.\<close>

definition parse_tree :: "node \<Rightarrow> packet \<Rightarrow> py_error + (found \<times> found \<times> found \<times> found \<times> found)" where
  "parse_tree t packet =
     bindE (extract_int_data packet) (\<lambda>info_opt.
     (case info_opt of
        None \<Rightarrow> Inl AttributeError
      | Some info \<Rightarrow>
     bindE (findall_by_attr t (dict_get info ''srcMac'')) (\<lambda>macs.
     (case macs of
        [] \<Rightarrow> Inr (None, None, None, None, None)
      | m # _ \<Rightarrow>
     (let mac = m in
     bindE (findall_by_attr (subtree t mac) (dict_get info ''srcIP'')) (\<lambda>src_ips.
     (case src_ips of
        [] \<Rightarrow> Inr (Some mac, None, None, None, None)
      | si # _ \<Rightarrow>
     (let src_ip = mac @ si in
     bindE (findall_by_attr (subtree t src_ip) (dict_get info ''dstIP'')) (\<lambda>dst_ips.
     (case dst_ips of
        [] \<Rightarrow> Inr (Some mac, Some src_ip, None, None, None)
      | di # _ \<Rightarrow>
     (let dst_ip = src_ip @ di in
     bindE (findall_by_attr (subtree t dst_ip) (dict_get info ''dstPort'')) (\<lambda>dst_ports.
     (case dst_ports of
        [] \<Rightarrow> Inr (Some mac, Some src_ip, Some dst_ip, None, None)
      | dp # _ \<Rightarrow>
     (let dst_port = dst_ip @ dp in
     bindE (findall_by_attr (subtree t dst_port) (dict_get info ''packet_size'')) (\<lambda>packet_sizes.
     (case packet_sizes of
        [] \<Rightarrow> Inr (Some mac, Some src_ip, Some dst_ip, Some dst_port, None)
      | ps # _ \<Rightarrow>
          Inr (Some mac, Some src_ip, Some dst_ip, Some dst_port, Some (dst_port @ ps))
     ))))))))))))))))"

text \<open>
  The body of \<^verbatim>\<open>Oinc.__packet_with_mac\<close> on the counter node \<^verbatim>\<open>packet_size.children[0]\<close>:
  \<open>current_time\<close> is \<^verbatim>\<open>datetime.datetime.today()\<close>, \<open>report\<close> the attack report built from
  the names of the nodes. It returns the counter as the call leaves it, the reports
  posted, and the exception if one escapes.

  The rate \<^verbatim>\<open>count.value / delta\<close> is a division of floats: \<^verbatim>\<open>delta\<close> is the double that
  \<^verbatim>\<open>total_seconds()\<close> returns and the quotient is rounded again, so the rate stored and
  tested need not be the exact quotient (for a count of 57 after 0.57 s it is
  100.00000000000001). \<open>float_div n d\<close> stands for the double the source computes from
  the count \<open>n\<close> and the elapsed time \<open>d\<close>; nothing is assumed about it. The two other
  tests are made on the elapsed time itself: datetimes have a resolution of one
  microsecond, at which \<^verbatim>\<open>total_seconds()\<close> is zero only for equal times (the division then
  raises) and exceeds 60 exactly when the difference does.
\<close>

definition update_counter :: "(int \<Rightarrow> rat \<Rightarrow> rat) \<Rightarrow> rat \<Rightarrow> bool \<Rightarrow> pydict \<Rightarrow> counter \<Rightarrow>
    pydict list \<Rightarrow> (py_error + unit) \<times> counter \<times> pydict list" where
  "update_counter float_div current_time ok report c ps =
     (let c1 = c\<lparr>c_value := c_value c + 1\<rparr>;
          base_time = c_time c1;
          delta = current_time - base_time
      in if delta = 0 then (Inl ZeroDivisionError, c1, ps)
         else
           (let c2 = c1\<lparr>c_pps := float_div (c_value c1) delta\<rparr>;
                (c3, ps3) =
                  (if c_value c2 > 3 \<and> c_pps c2 > 100 \<and> \<not> c_attack c2
                   then (c2\<lparr>c_attack := True\<rparr>,
                         snd (case send_attack ok ps report of (r, ps') \<Rightarrow>
                                (try_except r (\<lambda>e. Inr ()), ps')))
                   else (c2, ps));
                c4 = (if delta > 60 then c3\<lparr>c_time := current_time, c_value := 1\<rparr> else c3)
            in (Inr (), c4, ps3)))"

definition oinc_report :: "node \<Rightarrow> nat list \<Rightarrow> nat list \<Rightarrow> nat list \<Rightarrow> nat list \<Rightarrow> nat list \<Rightarrow> pydict" where
  "oinc_report t mac src_ip dst_ip dst_port packet_size =
     [(''src_mac'', name (subtree t mac)), (''src_ip'', name (subtree t src_ip)),
      (''dst_ip'', name (subtree t dst_ip)), (''dst_port'', name (subtree t dst_port)),
      (''packet_size'', name (subtree t packet_size)),
      (''attack_type'', PStr ''UDP Flood'')]"

text \<open>\<^verbatim>\<open>Oinc.__packet_with_mac(mac, src_ip, dst_ip, dst_port, packet_size)\<close>\<close>

definition packet_with_mac :: "(int \<Rightarrow> rat \<Rightarrow> rat) \<Rightarrow> rat \<Rightarrow> bool \<Rightarrow> oinc \<Rightarrow> nat list \<Rightarrow>
    nat list \<Rightarrow> nat list \<Rightarrow> nat list \<Rightarrow> nat list \<Rightarrow> (py_error + unit) \<times> oinc" where
  "packet_with_mac float_div current_time ok s mac src_ip dst_ip dst_port packet_size =
     (case children (subtree (tree s) packet_size) of
        [] \<Rightarrow> (Inl IndexError, s)
      | cnt # _ \<Rightarrow>
          (case attrs cnt of
             None \<Rightarrow> (Inl AttributeError, s)
           | Some c \<Rightarrow>
               (case update_counter float_div current_time ok
                       (oinc_report (tree s) mac src_ip dst_ip dst_port packet_size) c (posted s) of
                  (r, c', ps) \<Rightarrow>
                    (r, s\<lparr>posted := ps,
                          tree := update_at (packet_size @ [0])
                                    (\<lambda>n. Node (name n) (Some c') (children n)) (tree s)\<rparr>))))"

text \<open>
  \<^verbatim>\<open>Oinc.__manage_tree\<close> only logs. For a node whose name \<^verbatim>\<open>is 'count'\<close> it reads the
  counter's attributes, which raises when the node has none. \<^verbatim>\<open>is\<close> compares the identity
  of the string objects: it holds only for a name equal to \<^verbatim>\<open>'count'\<close>, and then only when
  the name is the very object of the literal. \<open>name_is_count n\<close> tells whether the name
  of \<open>n\<close> is that object; nothing is assumed about it.
\<close>

fun nodes :: "node \<Rightarrow> node list" where
  "nodes (Node nm a cs) = Node nm a cs # concat (map nodes cs)"

definition manage_tree :: "(node \<Rightarrow> bool) \<Rightarrow> node \<Rightarrow> py_error + unit" where
  "manage_tree name_is_count t =
     (if list_ex (\<lambda>n. name n = PStr ''count'' \<and> name_is_count n \<and> attrs n = None) (nodes t)
      then Inl AttributeError else Inr ())"

text \<open>\<^verbatim>\<open>Oinc.process_packet(packet, ip_proto)\<close>\<close>

definition oinc_process_packet :: "(int \<Rightarrow> rat \<Rightarrow> rat) \<Rightarrow> (node \<Rightarrow> bool) \<Rightarrow> rat \<Rightarrow> bool \<Rightarrow>
    oinc \<Rightarrow> packet \<Rightarrow> (py_error + unit) \<times> oinc" where
  "oinc_process_packet float_div name_is_count current_time ok s packet =
     (case parse_tree (tree s) packet of
        Inl e \<Rightarrow> (Inl e, s)
      | Inr (mac, src_ip, dst_ip, dst_port, packet_size) \<Rightarrow>
          (case (if mac \<noteq> None then
                   (if src_ip \<noteq> None \<and> dst_ip \<noteq> None \<and> dst_port \<noteq> None \<and> packet_size \<noteq> None
                    then packet_with_mac float_div current_time ok s (the mac) (the src_ip)
                           (the dst_ip) (the dst_port) (the packet_size)
                    else (Inr (), s))
                 else (Inr (), s)) of
             (Inl e, s1) \<Rightarrow> (Inl e, s1)
           | (Inr _, s1) \<Rightarrow> (manage_tree name_is_count (tree s1), s1)))"

text \<open>The engine fed a sequence of frames, stopping at an exception.\<close>

fun oinc_run :: "(int \<Rightarrow> rat \<Rightarrow> rat) \<Rightarrow> (node \<Rightarrow> bool) \<Rightarrow> oinc \<Rightarrow> (packet \<times> rat \<times> bool) list \<Rightarrow>
    (py_error + unit) \<times> oinc" where
  "oinc_run float_div name_is_count s [] = (Inr (), s)"
| "oinc_run float_div name_is_count s ((p, current_time, ok) # rest) =
     (case oinc_process_packet float_div name_is_count current_time ok s p of
        (Inl e, s') \<Rightarrow> (Inl e, s')
      | (Inr _, s') \<Rightarrow> oinc_run float_div name_is_count s' rest)"

section \<open>The device-side sniffer\<close>

text \<open>
  \<^verbatim>\<open>device_sniff\<close> of \<^verbatim>\<open>trans_sec/device_software/receive_packets.py\<close> binds the layers for
  the configured number of INT hops and then sniffs. The model returns the bindings made
  and what \<^verbatim>\<open>__log_packet\<close> logged for each frame the capture delivered (\<open>frames\<close>; which
  frames arrive within \<open>duration\<close> is the capture's business).
\<close>

datatype log_line = Unable | IntPacketData pydict | PacketData | NothingToLog

definition log_packet :: "packet \<Rightarrow> int \<Rightarrow> py_error + log_line" where
  "log_packet packet int_hops =
     (case field packet IP ''proto'' of
        Inl e \<Rightarrow> Inr Unable
      | Inr ip_proto \<Rightarrow>
          if int_hops > 0 \<and> ip_proto = PInt 253 then
            bindE (if int_hops = 1 \<or> int_hops = 2 \<or> int_hops = 3
                   then bindE (field packet SourceIntMeta ''orig_mac'') (\<lambda>m.
                        bindE (field packet SourceIntMeta ''switch_id'') (\<lambda>s1. Inr (m, s1)))
                   else Inr (PNone, PNone)) (\<lambda>(mac1, switch_id_1).
            bindE (if int_hops = 2 \<or> int_hops = 3 then field packet IntMeta2 ''switch_id''
                   else Inr PNone) (\<lambda>switch_id_2.
            bindE (if int_hops = 3 then field packet IntMeta1 ''switch_id''
                   else Inr PNone) (\<lambda>switch_id_3.
            bindE (field packet Ether ''src'') (\<lambda>eth_src_mac.
            bindE (field packet Ether ''dst'') (\<lambda>eth_dst_mac.
            bindE (field packet IP ''src'') (\<lambda>src_ip.
            bindE (field packet IP ''dst'') (\<lambda>dst_ip.
            bindE (field packet UDP ''sport'') (\<lambda>src_port.
            bindE (field packet UDP ''dport'') (\<lambda>dst_port.
              Inr (IntPacketData
                [(''eth_src_mac'', eth_src_mac), (''eth_dst_mac'', eth_dst_mac),
                 (''src_ip'', src_ip), (''dst_ip'', dst_ip), (''mac1'', mac1),
                 (''switch_id_1'', switch_id_1), (''switch_id_2'', switch_id_2),
                 (''switch_id_3'', switch_id_3), (''src_port'', src_port),
                 (''dst_port'', dst_port),
                 (''packetLen'', PInt (int (wirelen packet)))]))))))))))
          else if int_hops < 1 \<and> ip_proto \<noteq> PInt 253 then Inr PacketData
          else Inr NothingToLog)"

text \<open>\<^verbatim>\<open>sniff(iface, prn=...)\<close>: the callback on each frame; an exception of the callback ends
  the capture.\<close>

fun sniff :: "int \<Rightarrow> packet list \<Rightarrow> log_line list \<Rightarrow> (py_error + unit) \<times> log_line list" where
  "sniff int_hops [] logged = (Inr (), logged)"
| "sniff int_hops (p # ps) logged =
     (case log_packet p int_hops of
        Inl e \<Rightarrow> (Inl e, logged)
      | Inr l \<Rightarrow> sniff int_hops ps (logged @ [l]))"

text \<open>The calls of \<^verbatim>\<open>bind_layers\<close> of \<^verbatim>\<open>device_sniff\<close>, in order, and the exception raised
  for more than three hops.\<close>

definition bind_int_layers :: "int \<Rightarrow> (py_error + unit) \<times> (layer_cls \<times> layer_cls) list" where
  "bind_int_layers int_hops =
     (if int_hops > 0 then
        (let b0 = [(Ether, IP), (IP, IntShim), (IntShim, IntHeader)];
             b1 = (if int_hops = 1 then b0 @ [(IntHeader, SourceIntMeta), (SourceIntMeta, UDP)]
                   else b0);
             b2 = (if int_hops = 2
                   then b1 @ [(IntHeader, IntMeta2), (IntMeta2, SourceIntMeta), (SourceIntMeta, UDP)]
                   else b1);
             b3 = (if int_hops = 3
                   then b2 @ [(IntHeader, IntMeta1), (IntMeta1, IntMeta2),
                              (IntMeta2, SourceIntMeta), (SourceIntMeta, UDP)]
                   else b2)
         in if int_hops > 3
            then (Inl (HopsError ''Cannot currently support more than 3 hops''), b3)
            else (Inr (), b3))
      else (Inr (), [(Ether, IP), (IP, UDP)]))"

record sniff_result =
  raised :: "py_error option"
  bound :: "(layer_cls \<times> layer_cls) list"
  logged :: "log_line list"
  sniffing :: bool

text \<open>\<^verbatim>\<open>device_sniff(iface, duration, int_hops)\<close>; \<open>sniffing\<close> tells whether \<^verbatim>\<open>sniff\<close> was
  called at all.\<close>

definition device_sniff :: "string \<Rightarrow> int \<Rightarrow> int \<Rightarrow> packet list \<Rightarrow> sniff_result" where
  "device_sniff iface duration int_hops frames =
     (case bind_int_layers int_hops of
        (Inl e, b) \<Rightarrow> \<lparr>raised = Some e, bound = b, logged = [], sniffing = False\<rparr>
      | (Inr _, b) \<Rightarrow>
          (case (if duration > 0 then sniff int_hops frames [] else sniff int_hops frames []) of
             (r, ls) \<Rightarrow>
               \<lparr>raised = (case r of Inl e \<Rightarrow> Some e | Inr _ \<Rightarrow> None), bound = b,
                logged = ls, sniffing = True\<rparr>))"

section \<open>Drivers and readers used to state the properties\<close>

text \<open>\<^verbatim>\<open>__process\<close> on a sequence of records, each with its clock readings, stopping at an
  exception.\<close>

fun process_all :: "(pydict \<Rightarrow> 'k) \<Rightarrow> 'k simple_ae \<Rightarrow> (call_env \<times> pydict) list \<Rightarrow>
    (py_error + bool list) \<times> 'k simple_ae" where
  "process_all key_of s [] = (Inr [], s)"
| "process_all key_of s ((env, d) # rest) =
     (case process key_of env s d of
        (Inl e, s') \<Rightarrow> (Inl e, s')
      | (Inr b, s') \<Rightarrow>
          (case process_all key_of s' rest of
             (Inl e, s'') \<Rightarrow> (Inl e, s'')
           | (Inr bs, s'') \<Rightarrow> (Inr (b # bs), s'')))"

text \<open>The timestamps \<^verbatim>\<open>count_map\<close> holds for a key (none when the key is absent).\<close>

definition stored :: "'k simple_ae \<Rightarrow> 'k \<Rightarrow> rat list" where
  "stored s k = (case count_map s k of None \<Rightarrow> [] | Some ts \<Rightarrow> ts)"

text \<open>The counter of one flow observed at each of the given times in turn.\<close>

fun count_packets :: "(int \<Rightarrow> rat \<Rightarrow> rat) \<Rightarrow> bool \<Rightarrow> pydict \<Rightarrow> counter \<Rightarrow> pydict list \<Rightarrow>
    rat list \<Rightarrow> (py_error + unit) \<times> counter \<times> pydict list" where
  "count_packets float_div ok report c ps [] = (Inr (), c, ps)"
| "count_packets float_div ok report c ps (t # ts) =
     (case update_counter float_div t ok report c ps of
        (Inl e, c', ps') \<Rightarrow> (Inl e, c', ps')
      | (Inr _, c', ps') \<Rightarrow> count_packets float_div ok report c' ps' ts)"

text \<open>
  The quotient without rounding. It is what the float division of the source returns
  when the elapsed time and the quotient are doubles, as they are for the inputs it is
  used at below: 1/8, 1/4, 3/8 and 1/2 s with the counts 1 to 4 (quotient 8), 1/64 s
  with the count 4 (quotient 256) and 4 s with the count 12 (quotient 3).
\<close>

definition exact_div :: "int \<Rightarrow> rat \<Rightarrow> rat" where
  "exact_div n d = of_int n / d"

section \<open>Concrete frames, records and stores\<close>

text \<open>
  A telemetry frame as the gateway delivers it: every layer that \<^verbatim>\<open>extract_int_data\<close> reads
  is there. \<open>udp_flood_frame\<close> carries the flow
  AA:BB, 10.0.0.1 to 10.0.0.2:5000, protocol 17, 64 bytes; \<open>no_udp_frame\<close> is the same frame
  without its transport layer.
\<close>

definition int_layers :: "(layer_cls \<times> pydict) list" where
  "int_layers =
     [(Ether, [(''dst'', PStr ''00:00:00:00:01:01''), (''src'', PStr ''AA:BB''),
               (''type'', PInt 2048)]),
      (IP, [(''src'', PStr ''10.0.0.1''), (''dst'', PStr ''10.0.0.2''), (''proto'', PInt 17)]),
      (SwitchINTHeaderMeta, [(''max_hops'', PInt 3), (''total_hops'', PInt 2),
                             (''next_proto'', PInt 17)]),
      (SwitchINTInspect, [(''switch_id'', PInt 1)]),
      (GatewayINTHeaderMeta, [(''ver'', PInt 1), (''max_hops'', PInt 3),
                              (''total_hops'', PInt 1), (''next_proto'', PInt 17)]),
      (GatewayINTInspect, [(''src_mac'', PStr ''AA:BB'')])]"

definition udp_flood_frame :: packet where
  "udp_flood_frame =
     \<lparr>layers = int_layers @ [(UDP, [(''sport'', PInt 1234), (''dport'', PInt 5000)])],
      wirelen = 64\<rparr>"


text \<open>The record extracted from such a frame, for any switch id, and the attack report
  \<^verbatim>\<open>__process\<close> builds from it.\<close>

definition flood_record :: "pyval \<Rightarrow> pydict" where
  "flood_record sw =
     [(''devMac'', PStr ''AA:BB''), (''devAddr'', PStr ''10.0.0.1''), (''switchId'', sw),
      (''dstAddr'', PStr ''10.0.0.2''), (''dstPort'', PInt 5000), (''protocol'', PInt 17),
      (''packetLen'', PInt 64)]"

definition flood_report :: pydict where
  "flood_report =
     [(''src_mac'', PStr ''AA:BB''), (''src_ip'', PStr ''10.0.0.1''),
      (''dst_ip'', PStr ''10.0.0.2''), (''dst_port'', PInt 5000), (''packet_size'', PInt 64),
      (''attack_type'', PStr ''UDP Flood'')]"

text \<open>A call at which every clock reads \<open>t\<close>.\<close>

definition at_time :: "rat \<Rightarrow> bool \<Rightarrow> call_env" where
  "at_time t ok = \<lparr>curr_time = t, time_check = t, time_set = t, post_ok = ok\<rparr>"

text \<open>A tree that holds the flow of \<open>udp_flood_frame\<close> with its counter.\<close>

definition flow_tree :: "counter \<Rightarrow> node" where
  "flow_tree c =
     Node (PStr ''root'') None
       [Node (PStr ''AA:BB'') None
         [Node (PStr ''10.0.0.1'') None
           [Node (PStr ''10.0.0.2'') None
             [Node (PInt 5000) None
               [Node (PInt 64) None
                 [Node (PStr ''count'') (Some c) []]]]]]]"


section \<open>Properties of the extraction\<close>

lemma log_int_packet_ok: "log_int_packet p = Inr ()"
  by (simp add: log_int_packet_def try_except_def split: sum.splits)

lemma extract_int_data_cases:
  "extract_int_data p = (case extract_fields p of Inl e \<Rightarrow> Inr None | Inr d \<Rightarrow> Inr (Some d))"
  by (simp add: extract_int_data_def log_int_packet_ok bindE_def try_except_def split: sum.splits)

lemma udp_flood_frame_record:
  "extract_int_data udp_flood_frame = Inr (Some (flood_record (PInt 1)))"
  by (simp add: extract_int_data_cases extract_fields_def field_def getlayer_def getattr_def
      bindE_def udp_flood_frame_def int_layers_def flood_record_def)

lemma udp_flood_frame_proto: "field udp_flood_frame IP ''proto'' = Inr (PInt 17)"
  by (simp add: field_def getlayer_def getattr_def bindE_def udp_flood_frame_def int_layers_def)

lemma extract_no_srcMac: "extract_int_data p = Inr (Some d) \<Longrightarrow> dict_get d ''srcMac'' = PNone"
  by (auto simp: extract_int_data_cases extract_fields_def bindE_def dict_get_def
      split: sum.splits)



section \<open>Properties of the device-side sniffer\<close>

lemma field_error: "field p c n = Inl e \<Longrightarrow> e = IndexError \<or> e = AttributeError"
  by (auto simp: field_def bindE_def getlayer_def getattr_def split: option.splits sum.splits)

lemma bindE_error:
  assumes "bindE m f = Inl e"
  shows "m = Inl e \<or> (\<exists>x. m = Inr x \<and> f x = Inl e)"
  using assms by (cases m) (simp_all add: bindE_def)

lemma log_packet_error: "log_packet p h = Inl e \<Longrightarrow> e = IndexError \<or> e = AttributeError"
  unfolding log_packet_def
  by (auto split: sum.splits if_splits prod.splits dest!: bindE_error dest: field_error)

lemma sniff_error: "sniff h ps acc = (Inl e, ls) \<Longrightarrow> e = IndexError \<or> e = AttributeError"
  by (induction ps arbitrary: acc) (auto split: sum.splits dest: log_packet_error)

lemma bind_int_layers_ok: "int_hops \<le> 3 \<Longrightarrow> fst (bind_int_layers int_hops) = Inr ()"
  by (simp add: bind_int_layers_def Let_def)

lemma bind_int_layers_many:
  "int_hops > 3 \<Longrightarrow> bind_int_layers int_hops =
     (Inl (HopsError ''Cannot currently support more than 3 hops''),
      [(Ether, IP), (IP, IntShim), (IntShim, IntHeader)])"
  by (simp add: bind_int_layers_def Let_def)

text \<open>
  Claim C8. With more than three INT hops configured, \<^verbatim>\<open>device_sniff\<close> raises while it
  binds the layers: the capture is never started and no frame reaches \<^verbatim>\<open>__log_packet\<close>,
  whatever frames the interface would deliver. With at most three hops the capture
  starts, and no frame can make it fail with the hop-count error.
\<close>

theorem hop_count_rejected:
  "(int_hops > 3 \<longrightarrow>
      device_sniff iface duration int_hops frames =
        \<lparr>raised = Some (HopsError ''Cannot currently support more than 3 hops''),
         bound = [(Ether, IP), (IP, IntShim), (IntShim, IntHeader)],
         logged = [], sniffing = False\<rparr>) \<and>
   (int_hops \<le> 3 \<longrightarrow>
      sniffing (device_sniff iface duration int_hops frames) \<and>
      (\<forall>m. raised (device_sniff iface duration int_hops frames) \<noteq> Some (HopsError m)))"
proof (intro conjI impI)
  assume "int_hops > 3"
  then show "device_sniff iface duration int_hops frames =
        \<lparr>raised = Some (HopsError ''Cannot currently support more than 3 hops''),
         bound = [(Ether, IP), (IP, IntShim), (IntShim, IntHeader)],
         logged = [], sniffing = False\<rparr>"
    by (simp add: device_sniff_def bind_int_layers_many)
next
  assume h: "int_hops \<le> 3"
  obtain b where b: "bind_int_layers int_hops = (Inr (), b)"
    using bind_int_layers_ok [OF h] by (cases "bind_int_layers int_hops") auto
  obtain r ls where s: "sniff int_hops frames [] = (r, ls)"
    by (cases "sniff int_hops frames []") auto
  show "sniffing (device_sniff iface duration int_hops frames)"
    by (simp add: device_sniff_def b s)
  show "\<forall>m. raised (device_sniff iface duration int_hops frames) \<noteq> Some (HopsError m)"
    using sniff_error [of int_hops frames "[]" _ ls] s
    by (auto simp: device_sniff_def b split: sum.splits)
qed

theorem hop_count_rejected_witness:
  "(4::int) > 3 \<and> (3::int) \<le> 3 \<and>
   device_sniff ''eth0'' 0 4 [udp_flood_frame] =
     \<lparr>raised = Some (HopsError ''Cannot currently support more than 3 hops''),
      bound = [(Ether, IP), (IP, IntShim), (IntShim, IntHeader)],
      logged = [], sniffing = False\<rparr> \<and>
   sniffing (device_sniff ''eth0'' 0 3 [udp_flood_frame])"
proof -
  have a: "(4::int) > 3" and b: "(3::int) \<le> 3" by simp_all
  from hop_count_rejected [of 4 "''eth0''" 0 "[udp_flood_frame]"] a
  have c: "device_sniff ''eth0'' 0 4 [udp_flood_frame] =
     \<lparr>raised = Some (HopsError ''Cannot currently support more than 3 hops''),
      bound = [(Ether, IP), (IP, IntShim), (IntShim, IntHeader)],
      logged = [], sniffing = False\<rparr>" by blast
  from hop_count_rejected [of 3 "''eth0''" 0 "[udp_flood_frame]"] b
  have d: "sniffing (device_sniff ''eth0'' 0 3 [udp_flood_frame])" by blast
  from a b c d show ?thesis by blast
qed

section \<open>Properties of SimpleAE\<close>

subsection \<open>The counting loop on a list that is all inside the window\<close>

lemma count_loop_fresh:
  "\<forall>t \<in> set (drop i tms). \<not> cur - t > of_int si \<Longrightarrow>
   count_loop cur si i tms c = (tms, c + int (length tms - i))"
proof (induction cur si i tms c rule: count_loop.induct)
  case (1 cur si i tms count)
  show ?case
  proof (cases "i < length tms")
    case False
    then show ?thesis by (simp add: count_loop.simps)
  next
    case True
    then have mem: "tms ! i \<in> set (drop i tms)"
      by (metis Cons_nth_drop_Suc list.set_intros(1))
    with "1.prems" have fresh: "\<not> cur - tms ! i > of_int si" by blast
    have rest: "\<forall>t \<in> set (drop (Suc i) tms). \<not> cur - t > of_int si"
      using "1.prems" by (metis Cons_nth_drop_Suc True list.set_intros(2))
    have "count_loop cur si (Suc i) tms (count + 1) = (tms, count + 1 + int (length tms - Suc i))"
      using "1.IH"(2) [OF True refl refl fresh rest] .
    with True fresh show ?thesis
      by (subst count_loop.simps) (simp add: Let_def Suc_diff_Suc)
  qed
qed

lemma observe_fresh:
  assumes "\<forall>t \<in> set (stored s k). curr_time env - t \<le> of_int (sample_interval s)"
    and "0 \<le> sample_interval s"
  shows "observe env s k = (stored s k @ [curr_time env], int (length (stored s k)) + 1)"
proof -
  have "\<forall>t \<in> set (drop 0 (stored s k @ [curr_time env])).
          \<not> curr_time env - t > of_int (sample_interval s)"
    using assms by (auto simp: not_less)
  from count_loop_fresh [OF this, of 0]
  show ?thesis
    by (auto simp: observe_def stored_def falsy_list_def Let_def split: option.splits)
qed

subsection \<open>One call of the detection path\<close>

lemma process_rule:
  assumes obs: "observe env s (key_of d) = (tms, count)"
    and dict: "make_attack_dict d = Inr a"
  shows "process key_of env s d =
     (if count > packet_count s then
        (if falsy_time (attack_map s (key_of d)) \<or>
            time_check env - the (attack_map s (key_of d)) > 1
         then (Inr (post_ok env),
               s\<lparr>posted := posted s @ [a],
                 count_map := (count_map s)(key_of d \<mapsto> tms),
                 attack_map := (attack_map s)(key_of d \<mapsto> time_set env)\<rparr>)
         else (Inr False, s\<lparr>count_map := (count_map s)(key_of d \<mapsto> tms)\<rparr>))
      else (Inr False, s\<lparr>count_map := (count_map s)(key_of d \<mapsto> tms)\<rparr>))"
  using obs dict
  by (simp add: process_def Let_def send_attack_def)

lemma process_in_window:
  assumes fresh: "\<forall>t \<in> set (stored s (key_of d)). curr_time env - t \<le> of_int (sample_interval s)"
    and si: "0 \<le> sample_interval s"
    and dict: "make_attack_dict d = Inr a"
  shows "process key_of env s d =
     (if int (length (stored s (key_of d))) + 1 > packet_count s then
        (if falsy_time (attack_map s (key_of d)) \<or>
            time_check env - the (attack_map s (key_of d)) > 1
         then (Inr (post_ok env),
               s\<lparr>posted := posted s @ [a],
                 count_map := (count_map s)(key_of d \<mapsto> stored s (key_of d) @ [curr_time env]),
                 attack_map := (attack_map s)(key_of d \<mapsto> time_set env)\<rparr>)
         else (Inr False,
               s\<lparr>count_map := (count_map s)(key_of d \<mapsto> stored s (key_of d) @ [curr_time env])\<rparr>))
      else (Inr False,
            s\<lparr>count_map := (count_map s)(key_of d \<mapsto> stored s (key_of d) @ [curr_time env])\<rparr>))"
  using process_rule [of env s key_of d "stored s (key_of d) @ [curr_time env]"
      "int (length (stored s (key_of d))) + 1" a] observe_fresh [OF fresh si] dict
  by simp

lemma process_count_map:
  "count_map (snd (process key_of env s d)) =
     (count_map s)(key_of d \<mapsto> fst (observe env s (key_of d)))"
  by (cases "observe env s (key_of d)")
     (simp add: process_def Let_def send_attack_def split: sum.splits)

lemma process_posted:
  "posted (snd (process key_of env s d)) = posted s \<or>
   (\<exists>a. posted (snd (process key_of env s d)) = posted s @ [a])"
  by (cases "observe env s (key_of d)")
     (auto simp add: process_def Let_def send_attack_def split: sum.splits)

lemma process_no_post_error: "fst (process key_of env s d) \<noteq> Inl PostError"
  by (cases "observe env s (key_of d)")
     (auto simp add: process_def Let_def send_attack_def make_attack_dict_def dict_item_def
        bindE_def split: sum.splits option.splits)

lemma process_failed_post:
  assumes "\<not> post_ok env" "posted (snd (process key_of env s d)) \<noteq> posted s"
  shows "fst (process key_of env s d) = Inr False \<and>
         attack_map (snd (process key_of env s d)) (key_of d) = Some (time_set env)"
  using assms
  by (cases "observe env s (key_of d)")
     (auto simp add: process_def Let_def send_attack_def split: sum.splits if_splits)

lemma process_suppressed:
  assumes "attack_map s (key_of d) = Some t" "t \<noteq> 0" "time_check env - t \<le> 1"
    "make_attack_dict d = Inr a"
  shows "process key_of env s d =
     (Inr False, s\<lparr>count_map := (count_map s)(key_of d \<mapsto> fst (observe env s (key_of d)))\<rparr>)"
  using assms
  by (cases "observe env s (key_of d)")
     (auto simp add: process_def Let_def falsy_time_def)

lemma flood_record_report: "make_attack_dict (flood_record sw) = Inr flood_report"
  by (simp add: make_attack_dict_def flood_record_def flood_report_def dict_item_def bindE_def)

lemma process_first_over:
  "process id (at_time t ok) (simple_ae_init 0 60) (flood_record sw) =
     (Inr ok, (simple_ae_init 0 60)
        \<lparr>posted := [flood_report],
         count_map := (count_map (simple_ae_init 0 60))(flood_record sw \<mapsto> [t]),
         attack_map := (attack_map (simple_ae_init 0 60))(flood_record sw \<mapsto> t)\<rparr>)"
  by (subst process_in_window [where a = flood_report])
     (simp_all add: flood_record_report simple_ae_init_def stored_def falsy_time_def at_time_def)

lemma process_first_under:
  "process id (at_time t ok) (simple_ae_init 1 60) (flood_record sw) =
     (Inr False, (simple_ae_init 1 60)
        \<lparr>count_map := (count_map (simple_ae_init 1 60))(flood_record sw \<mapsto> [t])\<rparr>)"
  by (subst process_in_window [where a = flood_report])
     (simp_all add: flood_record_report simple_ae_init_def stored_def at_time_def)

subsection \<open>Frames that all fall inside the window are all counted\<close>

lemma process_all_in_window:
  fixes key_of :: "pydict \<Rightarrow> 'k"
  assumes dict: "make_attack_dict d = Inr a"
    and si: "0 \<le> sample_interval s"
    and win: "\<forall>t \<in> set (stored s (key_of d)) \<union> curr_time ` set es.
              \<forall>e \<in> set es. curr_time e - t \<le> of_int (sample_interval s)"
  shows "\<exists>bs. fst (process_all key_of s (map (\<lambda>e. (e, d)) es)) = Inr bs" (is ?A)
    and "stored (snd (process_all key_of s (map (\<lambda>e. (e, d)) es))) (key_of d) =
           stored s (key_of d) @ map curr_time es" (is ?B)
    and "sample_interval (snd (process_all key_of s (map (\<lambda>e. (e, d)) es))) =
           sample_interval s" (is ?C)
proof -
  have "?A \<and> ?B \<and> ?C"
    using si win
  proof (induction es arbitrary: s)
    case Nil
    show ?case by simp
  next
    case (Cons e es)
    let ?k = "key_of d"
    have fresh: "\<forall>t \<in> set (stored s ?k). curr_time e - t \<le> of_int (sample_interval s)"
      using Cons.prems(2) by simp
    obtain r s1 where step: "process key_of e s d = (r, s1)"
      by (cases "process key_of e s d") auto
    from process_in_window [where key_of = key_of and env = e and s = s and d = d and a = a,
        OF fresh Cons.prems(1) dict] step
    have r: "\<exists>b. r = Inr b"
      and st: "stored s1 ?k = stored s ?k @ [curr_time e]"
      and iv: "sample_interval s1 = sample_interval s"
      by (auto simp: stored_def split: if_splits)
    have si1: "0 \<le> sample_interval s1" using iv Cons.prems(1) by simp
    have win1: "\<forall>t \<in> set (stored s1 ?k) \<union> curr_time ` set es.
              \<forall>e \<in> set es. curr_time e - t \<le> of_int (sample_interval s1)"
      using Cons.prems(2) by (auto simp: st iv)
    from Cons.IH [OF si1 win1] r show ?case
      by (auto simp: step st iv split: sum.splits prod.splits)
  qed
  then show ?A ?B ?C by blast+
qed

text \<open>
  When \<open>N\<close> identical records are observed by a fresh engine and all their timestamps
  lie within the sample interval of one another, nothing is removed and the \<open>N\<close>-th
  observation counts \<open>N\<close>.
\<close>

lemma n_frames_in_window_counted:
  fixes key_of :: "pydict \<Rightarrow> 'k"
  assumes dict: "make_attack_dict d = Inr a"
    and si: "0 \<le> si"
    and win: "\<forall>e1 \<in> set (es @ [e]). \<forall>e2 \<in> set (es @ [e]).
                curr_time e2 - curr_time e1 \<le> of_int si"
  shows "observe e (snd (process_all key_of (simple_ae_init pc si) (map (\<lambda>e. (e, d)) es)))
           (key_of d) =
         (map curr_time (es @ [e]), int (length (es @ [e])))"
proof -
  let ?init = "simple_ae_init pc si :: 'k simple_ae"
  let ?s = "snd (process_all key_of ?init (map (\<lambda>e. (e, d)) es))"
  have s0: "sample_interval ?init = si" "stored ?init (key_of d) = []"
    by (simp_all add: simple_ae_init_def stored_def)
  have w0: "\<forall>t \<in> set (stored ?init (key_of d)) \<union> curr_time ` set es.
              \<forall>e \<in> set es. curr_time e - t \<le> of_int (sample_interval ?init)"
    using win by (auto simp: s0)
  have si0: "0 \<le> sample_interval ?init" using si by (simp add: s0)
  have st: "stored ?s (key_of d) = map curr_time es"
    using process_all_in_window(2) [where key_of = key_of and d = d and es = es, OF dict si0 w0]
    by (simp add: s0)
  have iv: "sample_interval ?s = si"
    using process_all_in_window(3) [where key_of = key_of and d = d and es = es, OF dict si0 w0]
    by (simp add: s0)
  have "\<forall>t \<in> set (stored ?s (key_of d)). curr_time e - t \<le> of_int (sample_interval ?s)"
    using win by (auto simp: st iv)
  from observe_fresh [where k = "key_of d", OF this] si show ?thesis
    by (simp add: st iv)
qed

text \<open>
  Claim C2, second half, at the failing inputs (sample interval 60 s). One record observed
  at 0 s and the same record again at 61 s: the loop removes the stale entry, and the
  removal makes the iterator step over the entry just appended, so the count is 0 although
  one observation lies in the window. Two records at 0 s and 1 s and a third at 62 s: the
  entry of 1 s, 61 s old, is stepped over and stays in the list. With a threshold of 0 the
  miscount is visible to the caller: of two records at 10 s and 71 s the second, alone in
  its window and over the threshold, is reported as no attack and nothing is posted for
  it.
\<close>

theorem stale_entries_miscounted:
  "observe (at_time 61 True)
     (snd (process_all id (simple_ae_init 100 60) [(at_time 0 True, flood_record (PInt 1))]))
     (flood_record (PInt 1)) = ([61], 0) \<and>
   observe (at_time 62 True)
     (snd (process_all id (simple_ae_init 100 60)
            [(at_time 0 True, flood_record (PInt 1)), (at_time 1 True, flood_record (PInt 1))]))
     (flood_record (PInt 1)) = ([1, 62], 1) \<and>
   fst (process_all id (simple_ae_init 0 60)
          [(at_time 10 True, flood_record (PInt 1)), (at_time 71 True, flood_record (PInt 1))]) =
     Inr [True, False] \<and>
   posted (snd (process_all id (simple_ae_init 0 60)
          [(at_time 10 True, flood_record (PInt 1)), (at_time 71 True, flood_record (PInt 1))])) =
     [flood_report]"
proof -
  have l1: "count_loop 61 60 0 [0, 61] 0 = ([61], 0)"
    by (simp add: count_loop.simps)
  have l2: "count_loop 62 60 0 [0, 1, 62] 0 = ([1, 62], 1)"
    by (simp add: count_loop.simps)
  have p1: "process id (at_time 0 True) (simple_ae_init 100 60) (flood_record (PInt 1)) =
     (Inr False, (simple_ae_init 100 60)
        \<lparr>count_map := (count_map (simple_ae_init 100 60))(flood_record (PInt 1) \<mapsto> [0])\<rparr>)"
    by (subst process_in_window [where a = flood_report])
       (simp_all add: flood_record_report simple_ae_init_def stored_def at_time_def)
  have p2: "process id (at_time 1 True)
      ((simple_ae_init 100 60)
        \<lparr>count_map := (count_map (simple_ae_init 100 60))(flood_record (PInt 1) \<mapsto> [0])\<rparr>)
      (flood_record (PInt 1)) =
     (Inr False, (simple_ae_init 100 60)
        \<lparr>count_map := (count_map (simple_ae_init 100 60))(flood_record (PInt 1) \<mapsto> [0, 1])\<rparr>)"
    by (subst process_in_window [where a = flood_report])
       (simp_all add: flood_record_report simple_ae_init_def stored_def at_time_def)
  let ?s1 = "(simple_ae_init 0 60)
        \<lparr>posted := [flood_report],
         count_map := (count_map (simple_ae_init 0 60))(flood_record (PInt 1) \<mapsto> [10]),
         attack_map := (attack_map (simple_ae_init 0 60))(flood_record (PInt 1) \<mapsto> 10)\<rparr>"
  have l3: "count_loop 71 60 0 [10, 71] 0 = ([71], 0)"
    by (simp add: count_loop.simps)
  have o3: "observe (at_time 71 True) ?s1 (id (flood_record (PInt 1))) = ([71], 0)"
    by (simp add: observe_def falsy_list_def simple_ae_init_def at_time_def l3)
  have p3: "process id (at_time 71 True) ?s1 (flood_record (PInt 1)) =
     (Inr False, ?s1\<lparr>count_map := (count_map ?s1)(id (flood_record (PInt 1)) \<mapsto> [71])\<rparr>)"
    using process_rule [where key_of = id, OF o3 flood_record_report]
    by (simp add: simple_ae_init_def)
  have a: "observe (at_time 61 True)
     (snd (process_all id (simple_ae_init 100 60) [(at_time 0 True, flood_record (PInt 1))]))
     (flood_record (PInt 1)) = ([61], 0)"
    by (simp add: p1) (simp add: observe_def falsy_list_def simple_ae_init_def at_time_def l1)
  have b: "observe (at_time 62 True)
     (snd (process_all id (simple_ae_init 100 60)
            [(at_time 0 True, flood_record (PInt 1)), (at_time 1 True, flood_record (PInt 1))]))
     (flood_record (PInt 1)) = ([1, 62], 1)"
    by (simp add: p1 p2) (simp add: observe_def falsy_list_def simple_ae_init_def at_time_def l2)
  have c: "process_all id (simple_ae_init 0 60)
          [(at_time 10 True, flood_record (PInt 1)), (at_time 71 True, flood_record (PInt 1))] =
     (Inr [True, False], ?s1\<lparr>count_map := (count_map ?s1)(id (flood_record (PInt 1)) \<mapsto> [71])\<rparr>)"
    by (simp add: process_first_over p3)
  show ?thesis
    unfolding c using a b by simp
qed

subsection \<open>Debounce\<close>

lemma four_then_one_more:
  fixes key_of :: "pydict \<Rightarrow> 'k"
  assumes dict: "make_attack_dict d = Inr a"
    and si: "1 \<le> si"
    and ord: "curr_time e1 \<le> curr_time e2" "curr_time e2 \<le> curr_time e3"
             "curr_time e3 \<le> curr_time e4" "curr_time e4 \<le> curr_time e5"
    and sec: "curr_time e4 - curr_time e1 \<le> 1"
    and win: "curr_time e5 - curr_time e1 \<le> of_int si"
    and epoch: "time_set e4 \<noteq> 0"
    and later: "time_check e5 - time_set e4 > 1"
  shows "fst (process_all key_of (simple_ae_init 3 si) [(e1, d), (e2, d), (e3, d), (e4, d)]) =
           Inr [False, False, False, post_ok e4]"
    and "posted (snd (process_all key_of (simple_ae_init 3 si)
                        [(e1, d), (e2, d), (e3, d), (e4, d)])) = [a]"
    and "fst (process_all key_of (simple_ae_init 3 si)
                        [(e1, d), (e2, d), (e3, d), (e4, d), (e5, d)]) =
           Inr [False, False, False, post_ok e4, post_ok e5]"
    and "posted (snd (process_all key_of (simple_ae_init 3 si)
                        [(e1, d), (e2, d), (e3, d), (e4, d), (e5, d)])) = [a, a]"
proof -
  let ?k = "key_of d"
  let ?init = "simple_ae_init 3 si :: 'k simple_ae"
  have si0: "0 \<le> si" and si': "(1::rat) \<le> of_int si" using si by simp_all
  define s1 where "s1 = ?init\<lparr>count_map := (count_map ?init)(?k \<mapsto> [curr_time e1])\<rparr>"
  define s2 where "s2 = s1\<lparr>count_map := (count_map s1)(?k \<mapsto> [curr_time e1, curr_time e2])\<rparr>"
  define s3 where "s3 = s2\<lparr>count_map :=
     (count_map s2)(?k \<mapsto> [curr_time e1, curr_time e2, curr_time e3])\<rparr>"
  define s4 where "s4 = s3\<lparr>posted := [a],
     count_map := (count_map s3)(?k \<mapsto> [curr_time e1, curr_time e2, curr_time e3, curr_time e4]),
     attack_map := (attack_map s3)(?k \<mapsto> time_set e4)\<rparr>"
  define s5 where "s5 = s4\<lparr>posted := [a, a],
     count_map := (count_map s4)(?k \<mapsto>
        [curr_time e1, curr_time e2, curr_time e3, curr_time e4, curr_time e5]),
     attack_map := (attack_map s4)(?k \<mapsto> time_set e5)\<rparr>"
  have p1: "process key_of e1 ?init d = (Inr False, s1)"
    by (subst process_in_window [OF _ _ dict])
       (simp_all add: simple_ae_init_def stored_def s1_def si0)
  have p2: "process key_of e2 s1 d = (Inr False, s2)"
    using ord sec si'
    by (subst process_in_window [OF _ _ dict])
       (simp_all add: simple_ae_init_def stored_def s1_def s2_def si0)
  have p3: "process key_of e3 s2 d = (Inr False, s3)"
    using ord sec si'
    by (subst process_in_window [OF _ _ dict])
       (simp_all add: simple_ae_init_def stored_def s1_def s2_def s3_def si0)
  have p4: "process key_of e4 s3 d = (Inr (post_ok e4), s4)"
    using ord sec si'
    by (subst process_in_window [OF _ _ dict])
       (simp_all add: simple_ae_init_def stored_def s1_def s2_def s3_def s4_def si0
          falsy_time_def)
  have p5: "process key_of e5 s4 d = (Inr (post_ok e5), s5)"
    using ord sec si' win later epoch
    by (subst process_in_window [OF _ _ dict])
       (simp_all add: simple_ae_init_def stored_def s1_def s2_def s3_def s4_def s5_def si0
          falsy_time_def)
  have r4: "process_all key_of ?init [(e1, d), (e2, d), (e3, d), (e4, d)] =
             (Inr [False, False, False, post_ok e4], s4)"
    by (simp add: p1 p2 p3 p4)
  have r5: "process_all key_of ?init [(e1, d), (e2, d), (e3, d), (e4, d), (e5, d)] =
             (Inr [False, False, False, post_ok e4, post_ok e5], s5)"
    by (simp add: p1 p2 p3 p4 p5)
  show "fst (process_all key_of ?init [(e1, d), (e2, d), (e3, d), (e4, d)]) =
           Inr [False, False, False, post_ok e4]"
    unfolding r4 by simp
  show "posted (snd (process_all key_of ?init [(e1, d), (e2, d), (e3, d), (e4, d)])) = [a]"
    unfolding r4 by (simp add: s4_def)
  show "fst (process_all key_of ?init [(e1, d), (e2, d), (e3, d), (e4, d), (e5, d)]) =
           Inr [False, False, False, post_ok e4, post_ok e5]"
    unfolding r5 by simp
  show "posted (snd (process_all key_of ?init
           [(e1, d), (e2, d), (e3, d), (e4, d), (e5, d)])) = [a, a]"
    unfolding r5 by (simp add: s5_def)
qed

text \<open>
  Claim C3. When the count of \<^verbatim>\<open>__process\<close> exceeds \<^verbatim>\<open>packet_count\<close>, the report is posted
  exactly when \<^verbatim>\<open>attack_map\<close> has no time for the key or the time of the check is more than
  one second after it; then the time is stored and the call returns whether the post
  succeeded, otherwise nothing is posted and the call returns \<^verbatim>\<open>False\<close>. The stored time is
  taken to be a clock reading after the epoch (not \<open>0\<close>, which Python treats as absent).
  With a threshold of 3, four identical records whose timestamps lie within one second
  post exactly one report, and a fifth record, still in the sample window and checked more
  than one second after the stored time, posts a second.
\<close>

theorem debounced_notification:
  fixes key_of :: "pydict \<Rightarrow> 'k"
  shows
  "(observe env s (key_of d) = (tms, count) \<and> count > packet_count s \<and>
    make_attack_dict d = Inr a \<and> attack_map s (key_of d) \<noteq> Some 0 \<longrightarrow>
      (if attack_map s (key_of d) = None \<or> time_check env - the (attack_map s (key_of d)) > 1
       then process key_of env s d =
              (Inr (post_ok env),
               s\<lparr>posted := posted s @ [a],
                 count_map := (count_map s)(key_of d \<mapsto> tms),
                 attack_map := (attack_map s)(key_of d \<mapsto> time_set env)\<rparr>)
       else process key_of env s d =
              (Inr False, s\<lparr>count_map := (count_map s)(key_of d \<mapsto> tms)\<rparr>))) \<and>
   (make_attack_dict d = Inr a \<and> 1 \<le> si \<and>
    curr_time e1 \<le> curr_time e2 \<and> curr_time e2 \<le> curr_time e3 \<and>
    curr_time e3 \<le> curr_time e4 \<and> curr_time e4 \<le> curr_time e5 \<and>
    curr_time e4 - curr_time e1 \<le> 1 \<and> curr_time e5 - curr_time e1 \<le> of_int si \<and>
    time_set e4 \<noteq> 0 \<and> time_check e5 - time_set e4 > 1 \<longrightarrow>
      fst (process_all key_of (simple_ae_init 3 si) [(e1, d), (e2, d), (e3, d), (e4, d)]) =
        Inr [False, False, False, post_ok e4] \<and>
      posted (snd (process_all key_of (simple_ae_init 3 si)
                     [(e1, d), (e2, d), (e3, d), (e4, d)])) = [a] \<and>
      fst (process_all key_of (simple_ae_init 3 si)
             [(e1, d), (e2, d), (e3, d), (e4, d), (e5, d)]) =
        Inr [False, False, False, post_ok e4, post_ok e5] \<and>
      posted (snd (process_all key_of (simple_ae_init 3 si)
                     [(e1, d), (e2, d), (e3, d), (e4, d), (e5, d)])) = [a, a])"
proof (intro conjI impI)
  assume h: "observe env s (key_of d) = (tms, count) \<and> count > packet_count s \<and>
    make_attack_dict d = Inr a \<and> attack_map s (key_of d) \<noteq> Some 0"
  then have f: "falsy_time (attack_map s (key_of d)) = (attack_map s (key_of d) = None)"
    by (auto simp: falsy_time_def split: option.splits)
  from h have obs: "observe env s (key_of d) = (tms, count)"
    and dict: "make_attack_dict d = Inr a" and over: "count > packet_count s" by blast+
  show "if attack_map s (key_of d) = None \<or> time_check env - the (attack_map s (key_of d)) > 1
       then process key_of env s d =
              (Inr (post_ok env),
               s\<lparr>posted := posted s @ [a],
                 count_map := (count_map s)(key_of d \<mapsto> tms),
                 attack_map := (attack_map s)(key_of d \<mapsto> time_set env)\<rparr>)
       else process key_of env s d =
              (Inr False, s\<lparr>count_map := (count_map s)(key_of d \<mapsto> tms)\<rparr>)"
    using process_rule [of env s key_of d tms count a, OF obs dict] over f by simp
next
  assume h: "make_attack_dict d = Inr a \<and> 1 \<le> si \<and>
    curr_time e1 \<le> curr_time e2 \<and> curr_time e2 \<le> curr_time e3 \<and>
    curr_time e3 \<le> curr_time e4 \<and> curr_time e4 \<le> curr_time e5 \<and>
    curr_time e4 - curr_time e1 \<le> 1 \<and> curr_time e5 - curr_time e1 \<le> of_int si \<and>
    time_set e4 \<noteq> 0 \<and> time_check e5 - time_set e4 > 1"
  note r = four_then_one_more [where key_of = key_of and d = d and a = a and si = si
      and ?e1.0 = e1 and ?e2.0 = e2 and ?e3.0 = e3 and ?e4.0 = e4 and ?e5.0 = e5]
  from h have a: "make_attack_dict d = Inr a" "1 \<le> si"
    "curr_time e1 \<le> curr_time e2" "curr_time e2 \<le> curr_time e3"
    "curr_time e3 \<le> curr_time e4" "curr_time e4 \<le> curr_time e5"
    "curr_time e4 - curr_time e1 \<le> 1" "curr_time e5 - curr_time e1 \<le> of_int si"
    "time_set e4 \<noteq> 0" "time_check e5 - time_set e4 > 1" by blast+
  show "fst (process_all key_of (simple_ae_init 3 si) [(e1, d), (e2, d), (e3, d), (e4, d)]) =
        Inr [False, False, False, post_ok e4]"
    using r(1) [OF a] .
  show "posted (snd (process_all key_of (simple_ae_init 3 si)
                     [(e1, d), (e2, d), (e3, d), (e4, d)])) = [a]"
    using r(2) [OF a] .
  show "fst (process_all key_of (simple_ae_init 3 si)
             [(e1, d), (e2, d), (e3, d), (e4, d), (e5, d)]) =
        Inr [False, False, False, post_ok e4, post_ok e5]"
    using r(3) [OF a] .
  show "posted (snd (process_all key_of (simple_ae_init 3 si)
                     [(e1, d), (e2, d), (e3, d), (e4, d), (e5, d)])) = [a, a]"
    using r(4) [OF a] .
qed

theorem debounced_notification_witness:
  "observe (at_time 10 True) (simple_ae_init 0 60) (id (flood_record (PInt 1))) = ([10], 1) \<and>
   1 > packet_count (simple_ae_init 0 60 :: pydict simple_ae) \<and>
   make_attack_dict (flood_record (PInt 1)) = Inr flood_report \<and>
   attack_map (simple_ae_init 0 60 :: pydict simple_ae) (id (flood_record (PInt 1))) \<noteq> Some 0 \<and>
   process id (at_time 10 True) (simple_ae_init 0 60) (flood_record (PInt 1)) =
     (Inr True,
      (simple_ae_init 0 60)
        \<lparr>posted := posted (simple_ae_init 0 60 :: pydict simple_ae) @ [flood_report],
         count_map := (count_map (simple_ae_init 0 60))(id (flood_record (PInt 1)) \<mapsto> [10]),
         attack_map := (attack_map (simple_ae_init 0 60))(id (flood_record (PInt 1)) \<mapsto> 10)\<rparr>) \<and>
   (1::int) \<le> 60 \<and> time_set (at_time (43/4) True) \<noteq> 0 \<and>
   time_check (at_time 12 False) - time_set (at_time (43/4) True) > 1 \<and>
   fst (process_all id (simple_ae_init 3 60)
          [(at_time 10 True, flood_record (PInt 1)), (at_time (41/4) True, flood_record (PInt 1)),
           (at_time (21/2) True, flood_record (PInt 1)),
           (at_time (43/4) True, flood_record (PInt 1))]) =
     Inr [False, False, False, True] \<and>
   posted (snd (process_all id (simple_ae_init 3 60)
          [(at_time 10 True, flood_record (PInt 1)), (at_time (41/4) True, flood_record (PInt 1)),
           (at_time (21/2) True, flood_record (PInt 1)),
           (at_time (43/4) True, flood_record (PInt 1))])) = [flood_report] \<and>
   fst (process_all id (simple_ae_init 3 60)
          [(at_time 10 True, flood_record (PInt 1)), (at_time (41/4) True, flood_record (PInt 1)),
           (at_time (21/2) True, flood_record (PInt 1)),
           (at_time (43/4) True, flood_record (PInt 1)),
           (at_time 12 False, flood_record (PInt 1))]) =
     Inr [False, False, False, True, False] \<and>
   posted (snd (process_all id (simple_ae_init 3 60)
          [(at_time 10 True, flood_record (PInt 1)), (at_time (41/4) True, flood_record (PInt 1)),
           (at_time (21/2) True, flood_record (PInt 1)),
           (at_time (43/4) True, flood_record (PInt 1)),
           (at_time 12 False, flood_record (PInt 1))])) = [flood_report, flood_report]"
proof -
  let ?init = "simple_ae_init 0 60 :: pydict simple_ae"
  let ?d = "flood_record (PInt 1)"
  have h1: "observe (at_time 10 True) ?init (id ?d) = ([10], 1)"
    by (subst observe_fresh) (simp_all add: simple_ae_init_def stored_def at_time_def)
  have h2: "1 > packet_count ?init" by (simp add: simple_ae_init_def)
  have h3: "make_attack_dict ?d = Inr flood_report" by (rule flood_record_report)
  have h4: "attack_map ?init (id ?d) \<noteq> Some 0" by (simp add: simple_ae_init_def)
  have c: "attack_map ?init (id ?d) = None" by (simp add: simple_ae_init_def)
  have ok: "post_ok (at_time 10 True) = True" "time_set (at_time 10 True) = 10"
    "post_ok (at_time (43/4) True) = True" "post_ok (at_time 12 False) = False"
    by (simp_all add: at_time_def)
  note inst = debounced_notification [where key_of = id and env = "at_time 10 True"
      and s = ?init and d = ?d and tms = "[10]" and count = 1 and a = flood_report and si = 60
      and ?e1.0 = "at_time 10 True" and ?e2.0 = "at_time (41/4) True"
      and ?e3.0 = "at_time (21/2) True" and ?e4.0 = "at_time (43/4) True"
      and ?e5.0 = "at_time 12 False"]
  from inst h1 h2 h3 h4
  have "if attack_map ?init (id ?d) = None \<or>
           time_check (at_time 10 True) - the (attack_map ?init (id ?d)) > 1
       then process id (at_time 10 True) ?init ?d =
              (Inr (post_ok (at_time 10 True)),
               ?init\<lparr>posted := posted ?init @ [flood_report],
                 count_map := (count_map ?init)(id ?d \<mapsto> [10]),
                 attack_map := (attack_map ?init)(id ?d \<mapsto> time_set (at_time 10 True))\<rparr>)
       else process id (at_time 10 True) ?init ?d =
              (Inr False, ?init\<lparr>count_map := (count_map ?init)(id ?d \<mapsto> [10])\<rparr>)"
    by blast
  with c have g1: "process id (at_time 10 True) ?init ?d =
     (Inr True,
      ?init\<lparr>posted := posted ?init @ [flood_report],
         count_map := (count_map ?init)(id ?d \<mapsto> [10]),
         attack_map := (attack_map ?init)(id ?d \<mapsto> 10)\<rparr>)"
    by (simp add: ok)
  have k: "(1::int) \<le> 60"
    "curr_time (at_time 10 True) \<le> curr_time (at_time (41/4) True)"
    "curr_time (at_time (41/4) True) \<le> curr_time (at_time (21/2) True)"
    "curr_time (at_time (21/2) True) \<le> curr_time (at_time (43/4) True)"
    "curr_time (at_time (43/4) True) \<le> curr_time (at_time 12 False)"
    "curr_time (at_time (43/4) True) - curr_time (at_time 10 True) \<le> 1"
    "curr_time (at_time 12 False) - curr_time (at_time 10 True) \<le> of_int 60"
    "time_set (at_time (43/4) True) \<noteq> 0"
    "time_check (at_time 12 False) - time_set (at_time (43/4) True) > 1"
    by (simp_all add: at_time_def)
  from inst h3 k
  have g2: "fst (process_all id (simple_ae_init 3 60)
          [(at_time 10 True, ?d), (at_time (41/4) True, ?d), (at_time (21/2) True, ?d),
           (at_time (43/4) True, ?d)]) =
        Inr [False, False, False, post_ok (at_time (43/4) True)] \<and>
      posted (snd (process_all id (simple_ae_init 3 60)
          [(at_time 10 True, ?d), (at_time (41/4) True, ?d), (at_time (21/2) True, ?d),
           (at_time (43/4) True, ?d)])) = [flood_report] \<and>
      fst (process_all id (simple_ae_init 3 60)
          [(at_time 10 True, ?d), (at_time (41/4) True, ?d), (at_time (21/2) True, ?d),
           (at_time (43/4) True, ?d), (at_time 12 False, ?d)]) =
        Inr [False, False, False, post_ok (at_time (43/4) True), post_ok (at_time 12 False)] \<and>
      posted (snd (process_all id (simple_ae_init 3 60)
          [(at_time 10 True, ?d), (at_time (41/4) True, ?d), (at_time (21/2) True, ?d),
           (at_time (43/4) True, ?d), (at_time 12 False, ?d)])) = [flood_report, flood_report]"
    by blast
  from h1 h2 h3 h4 g1 k(1,8,9) g2 show ?thesis
    by (simp only: ok) blast
qed

subsection \<open>End to end: three frames of one flow\<close>

lemma process_packet_extracted:
  assumes "field p IP ''proto'' = Inr proto" "extract_int_data p = Inr (Some d)" "d \<noteq> []"
  shows "process_packet key_of env s p proto = process key_of env s d"
  using assms by (simp add: process_packet_def)

lemma process_packet_filtered:
  assumes "field p IP ''proto'' = Inr proto" "proto \<noteq> ip_proto"
  shows "process_packet key_of env s p ip_proto = (Inr False, s)"
  using assms by (simp add: process_packet_def)

text \<open>
  Claim C7 as stated fails: the claim does not fix the protocol filter, and under the
  filter the engine is started with by default (253) the three frames, whose IP protocol
  is 17, are dropped by \<^verbatim>\<open>process_packet\<close> before they are counted: nothing is posted.
\<close>

theorem default_filter_posts_nothing:
  "posted (snd (handle_packets id (PInt 253) (simple_ae_init 2 60)
     [(udp_flood_frame, at_time 0 True), (udp_flood_frame, at_time 1 True),
      (udp_flood_frame, at_time 2 True)])) = []"
  by (simp add: process_packet_filtered [OF udp_flood_frame_proto] simple_ae_init_def)

text \<open>
  Claim C7, amended. A fresh engine with threshold 2 and interval 60 s whose protocol
  filter is 17 is fed three frames with IP protocol 17 from which the same record
  (AA:BB, 10.0.0.1, 10.0.0.2, 5000, 17, 64) is extracted, with timestamps within five
  seconds of one another. Then exactly one report is posted, on the third frame, and it
  carries the flow's five fields and the attack type UDP Flood.
\<close>

theorem three_frames_one_report:
  fixes key_of :: "pydict \<Rightarrow> 'k"
  assumes f1: "field p1 IP ''proto'' = Inr (PInt 17)"
              "extract_int_data p1 = Inr (Some (flood_record sw))"
    and f2: "field p2 IP ''proto'' = Inr (PInt 17)"
            "extract_int_data p2 = Inr (Some (flood_record sw))"
    and f3: "field p3 IP ''proto'' = Inr (PInt 17)"
            "extract_int_data p3 = Inr (Some (flood_record sw))"
    and near: "\<bar>curr_time e2 - curr_time e1\<bar> \<le> 5" "\<bar>curr_time e3 - curr_time e1\<bar> \<le> 5"
              "\<bar>curr_time e3 - curr_time e2\<bar> \<le> 5"
  shows "fst (handle_packets key_of (PInt 17) (simple_ae_init 2 60)
                [(p1, e1), (p2, e2), (p3, e3)]) = Inr [False, False, post_ok e3] \<and>
         posted (snd (handle_packets key_of (PInt 17) (simple_ae_init 2 60)
                [(p1, e1), (p2, e2), (p3, e3)])) = [flood_report]"
proof -
  let ?d = "flood_record sw"
  let ?k = "key_of ?d"
  let ?init = "simple_ae_init 2 60 :: 'k simple_ae"
  note dict = flood_record_report [of sw]
  have ne: "?d \<noteq> []" by (simp add: flood_record_def)
  define s1 where "s1 = ?init\<lparr>count_map := (count_map ?init)(?k \<mapsto> [curr_time e1])\<rparr>"
  define s2 where "s2 = s1\<lparr>count_map := (count_map s1)(?k \<mapsto> [curr_time e1, curr_time e2])\<rparr>"
  define s3 where "s3 = s2\<lparr>posted := [flood_report],
     count_map := (count_map s2)(?k \<mapsto> [curr_time e1, curr_time e2, curr_time e3]),
     attack_map := (attack_map s2)(?k \<mapsto> time_set e3)\<rparr>"
  have w: "curr_time e2 - curr_time e1 \<le> 60" "curr_time e3 - curr_time e1 \<le> 60"
    "curr_time e3 - curr_time e2 \<le> 60"
    using near by linarith+
  have p1: "process key_of e1 ?init ?d = (Inr False, s1)"
    by (subst process_in_window [OF _ _ dict])
       (simp_all add: simple_ae_init_def stored_def s1_def)
  have p2: "process key_of e2 s1 ?d = (Inr False, s2)"
    using w
    by (subst process_in_window [OF _ _ dict])
       (simp_all add: simple_ae_init_def stored_def s1_def s2_def)
  have p3: "process key_of e3 s2 ?d = (Inr (post_ok e3), s3)"
    using w
    by (subst process_in_window [OF _ _ dict])
       (simp_all add: simple_ae_init_def stored_def s1_def s2_def s3_def falsy_time_def)
  have r: "handle_packets key_of (PInt 17) ?init [(p1, e1), (p2, e2), (p3, e3)] =
               (Inr [False, False, post_ok e3], s3)"
    by (simp add: process_packet_extracted [OF f1 ne] process_packet_extracted [OF f2 ne]
        process_packet_extracted [OF f3 ne] p1 p2 p3)
  show ?thesis unfolding r by (simp add: s3_def)
qed

theorem three_frames_one_report_witness:
  "field udp_flood_frame IP ''proto'' = Inr (PInt 17) \<and>
   extract_int_data udp_flood_frame = Inr (Some (flood_record (PInt 1))) \<and>
   \<bar>curr_time (at_time 2 True) - curr_time (at_time 0 True)\<bar> \<le> 5 \<and>
   \<bar>curr_time (at_time 4 True) - curr_time (at_time 0 True)\<bar> \<le> 5 \<and>
   \<bar>curr_time (at_time 4 True) - curr_time (at_time 2 True)\<bar> \<le> 5 \<and>
   fst (handle_packets id (PInt 17) (simple_ae_init 2 60)
          [(udp_flood_frame, at_time 0 True), (udp_flood_frame, at_time 2 True),
           (udp_flood_frame, at_time 4 True)]) = Inr [False, False, True] \<and>
   posted (snd (handle_packets id (PInt 17) (simple_ae_init 2 60)
          [(udp_flood_frame, at_time 0 True), (udp_flood_frame, at_time 2 True),
           (udp_flood_frame, at_time 4 True)])) = [flood_report]"
proof -
  have n: "\<bar>curr_time (at_time 2 True) - curr_time (at_time 0 True)\<bar> \<le> 5"
    "\<bar>curr_time (at_time 4 True) - curr_time (at_time 0 True)\<bar> \<le> 5"
    "\<bar>curr_time (at_time 4 True) - curr_time (at_time 2 True)\<bar> \<le> 5"
    by (simp_all add: at_time_def)
  have ok: "post_ok (at_time 4 True) = True" by (simp add: at_time_def)
  note f = udp_flood_frame_proto udp_flood_frame_record
  from three_frames_one_report [where key_of = id, OF f f f n]
  have "fst (handle_packets id (PInt 17) (simple_ae_init 2 60)
          [(udp_flood_frame, at_time 0 True), (udp_flood_frame, at_time 2 True),
           (udp_flood_frame, at_time 4 True)]) = Inr [False, False, post_ok (at_time 4 True)] \<and>
   posted (snd (handle_packets id (PInt 17) (simple_ae_init 2 60)
          [(udp_flood_frame, at_time 0 True), (udp_flood_frame, at_time 2 True),
           (udp_flood_frame, at_time 4 True)])) = [flood_report]" .
  with f n show ?thesis by (simp only: ok)
qed

subsection \<open>A notifier that fails\<close>

lemma update_counter_ok_irrelevant:
  "update_counter fd t ok rep c ps = update_counter fd t True rep c ps"
  by (simp add: update_counter_def send_attack_def Let_def)

lemma update_counter_no_post_error: "fst (update_counter fd t ok rep c ps) \<noteq> Inl PostError"
  by (simp add: update_counter_def Let_def split: prod.splits)

lemma update_counter_posted:
  "snd (snd (update_counter fd t ok rep c ps)) = ps \<or>
   snd (snd (update_counter fd t ok rep c ps)) = ps @ [rep]"
  by (simp add: update_counter_def send_attack_def Let_def split: prod.splits)

lemma packet_with_mac_ok_irrelevant:
  "packet_with_mac fd t ok s m si di dp sz = packet_with_mac fd t True s m si di dp sz"
  unfolding packet_with_mac_def by (subst update_counter_ok_irrelevant) simp

text \<open>
  Claim C9 as stated fails in its last part: the failure of the notifier is not surfaced
  to the caller. A call of \<^verbatim>\<open>__process\<close> whose post fails returns \<^verbatim>\<open>False\<close>, the value
  returned by a call that detects no attack and posts nothing.
\<close>

theorem failed_post_looks_like_no_attack:
  "fst (process id (at_time 10 False) (simple_ae_init 0 60) (flood_record (PInt 1))) = Inr False \<and>
   posted (snd (process id (at_time 10 False) (simple_ae_init 0 60) (flood_record (PInt 1)))) =
     [flood_report] \<and>
   fst (process id (at_time 10 True) (simple_ae_init 1 60) (flood_record (PInt 1))) = Inr False \<and>
   posted (snd (process id (at_time 10 True) (simple_ae_init 1 60) (flood_record (PInt 1)))) = []"
  by (simp add: process_first_over process_first_under) (simp add: simple_ae_init_def)

text \<open>
  Claim C9, amended. Whatever the notifier does, \<^verbatim>\<open>__process\<close> leaves in \<^verbatim>\<open>count_map\<close> the
  list the observation produced, posts at most one report (no retry), and never lets the
  notifier's exception escape; when the post fails it returns \<^verbatim>\<open>False\<close>. In the tree
  engine \<^verbatim>\<open>__packet_with_mac\<close> returns the same result and leaves the same state whether
  the post fails or not, it posts at most one report and the notifier's exception does
  not escape either.
\<close>

theorem notifier_failure_contained:
  "count_map (snd (process key_of env s d)) =
     (count_map s)(key_of d \<mapsto> fst (observe env s (key_of d))) \<and>
   (posted (snd (process key_of env s d)) = posted s \<or>
    (\<exists>a. posted (snd (process key_of env s d)) = posted s @ [a])) \<and>
   fst (process key_of env s d) \<noteq> Inl PostError \<and>
   (\<not> post_ok env \<and> posted (snd (process key_of env s d)) \<noteq> posted s \<longrightarrow>
      fst (process key_of env s d) = Inr False) \<and>
   packet_with_mac float_div t False o_s m si di dp sz =
     packet_with_mac float_div t True o_s m si di dp sz \<and>
   update_counter float_div t False rep c ps = update_counter float_div t True rep c ps \<and>
   fst (update_counter float_div t ok rep c ps) \<noteq> Inl PostError \<and>
   (snd (snd (update_counter float_div t ok rep c ps)) = ps \<or>
    snd (snd (update_counter float_div t ok rep c ps)) = ps @ [rep])"
  using process_count_map [of key_of env s d] process_posted [of key_of env s d]
    process_no_post_error [of key_of env s d] process_failed_post [of env key_of s d]
    packet_with_mac_ok_irrelevant [of float_div t False o_s m si di dp sz]
    update_counter_ok_irrelevant [of float_div t False rep c ps]
    update_counter_no_post_error [of float_div t ok rep c ps]
    update_counter_posted [of float_div t ok rep c ps]
  by blast

theorem notifier_failure_contained_witness:
  "\<not> post_ok (at_time 10 False) \<and>
   posted (snd (process id (at_time 10 False) (simple_ae_init 0 60) (flood_record (PInt 1)))) \<noteq>
     posted (simple_ae_init 0 60 :: pydict simple_ae) \<and>
   fst (process id (at_time 10 False) (simple_ae_init 0 60) (flood_record (PInt 1))) = Inr False"
proof -
  have a: "\<not> post_ok (at_time 10 False)" by (simp add: at_time_def)
  have b: "posted (snd (process id (at_time 10 False) (simple_ae_init 0 60)
              (flood_record (PInt 1)))) \<noteq> posted (simple_ae_init 0 60 :: pydict simple_ae)"
    by (simp add: process_first_over) (simp add: simple_ae_init_def)
  from notifier_failure_contained [where key_of = id and env = "at_time 10 False"
      and s = "simple_ae_init 0 60" and d = "flood_record (PInt 1)"] a b
  have "fst (process id (at_time 10 False) (simple_ae_init 0 60) (flood_record (PInt 1))) =
          Inr False" by blast
  with a b show ?thesis by blast
qed

text \<open>
  Claim C10. \<^verbatim>\<open>__process\<close> stores the time in \<^verbatim>\<open>attack_map\<close> before it posts. When the post
  of a call fails, the call returns \<^verbatim>\<open>False\<close> and the time stays stored, so a later call for
  a record with the same key, checked at most one second after the stored time, posts
  nothing and returns \<^verbatim>\<open>False\<close>. The stored time is taken to be a clock reading after the
  epoch (not \<open>0\<close>).
\<close>

theorem debounce_armed_on_failure:
  assumes fail: "\<not> post_ok env1"
    and tried: "posted (snd (process key_of env1 s d)) \<noteq> posted s"
    and epoch: "time_set env1 \<noteq> 0"
    and same: "key_of d2 = key_of d"
    and dict: "make_attack_dict d2 = Inr a2"
    and soon: "time_check env2 - time_set env1 \<le> 1"
  shows "fst (process key_of env1 s d) = Inr False \<and>
         attack_map (snd (process key_of env1 s d)) (key_of d) = Some (time_set env1) \<and>
         fst (process key_of env2 (snd (process key_of env1 s d)) d2) = Inr False \<and>
         posted (snd (process key_of env2 (snd (process key_of env1 s d)) d2)) =
           posted (snd (process key_of env1 s d))"
proof -
  let ?s1 = "snd (process key_of env1 s d)"
  from process_failed_post [OF fail tried]
  have r1: "fst (process key_of env1 s d) = Inr False"
    and am: "attack_map ?s1 (key_of d) = Some (time_set env1)" by blast+
  from am same have am2: "attack_map ?s1 (key_of d2) = Some (time_set env1)" by simp
  have "process key_of env2 ?s1 d2 =
     (Inr False, ?s1\<lparr>count_map := (count_map ?s1)(key_of d2 \<mapsto> fst (observe env2 ?s1 (key_of d2)))\<rparr>)"
    by (rule process_suppressed [where key_of = key_of and d = d2, OF am2 epoch soon dict])
  then show ?thesis using r1 am by simp
qed

theorem debounce_armed_on_failure_witness:
  "\<not> post_ok (at_time 10 False) \<and>
   posted (snd (process id (at_time 10 False) (simple_ae_init 0 60) (flood_record (PInt 1)))) \<noteq>
     posted (simple_ae_init 0 60 :: pydict simple_ae) \<and>
   time_set (at_time 10 False) \<noteq> 0 \<and>
   make_attack_dict (flood_record (PInt 1)) = Inr flood_report \<and>
   time_check (at_time (21/2) True) - time_set (at_time 10 False) \<le> 1 \<and>
   fst (process id (at_time 10 False) (simple_ae_init 0 60) (flood_record (PInt 1))) = Inr False \<and>
   fst (process id (at_time (21/2) True)
          (snd (process id (at_time 10 False) (simple_ae_init 0 60) (flood_record (PInt 1))))
          (flood_record (PInt 1))) = Inr False \<and>
   posted (snd (process id (at_time (21/2) True)
          (snd (process id (at_time 10 False) (simple_ae_init 0 60) (flood_record (PInt 1))))
          (flood_record (PInt 1)))) = [flood_report]"
proof -
  let ?init = "simple_ae_init 0 60 :: pydict simple_ae"
  let ?d = "flood_record (PInt 1)"
  have a: "\<not> post_ok (at_time 10 False)" by (simp add: at_time_def)
  have b: "posted (snd (process id (at_time 10 False) ?init ?d)) \<noteq> posted ?init"
    by (simp add: process_first_over) (simp add: simple_ae_init_def)
  have c: "time_set (at_time 10 False) \<noteq> 0" by (simp add: at_time_def)
  have e: "id ?d = id ?d" by simp
  have f: "make_attack_dict ?d = Inr flood_report" by (rule flood_record_report)
  have g: "time_check (at_time (21/2) True) - time_set (at_time 10 False) \<le> 1"
    by (simp add: at_time_def)
  have p: "posted (snd (process id (at_time 10 False) ?init ?d)) = [flood_report]"
    by (simp add: process_first_over)
  from debounce_armed_on_failure [where key_of = id, OF a b c e f g] a b c f g p
  show ?thesis by simp
qed

section \<open>Properties of Oinc\<close>

subsection \<open>The tree is never built\<close>

lemma parse_tree_root:
  "parse_tree (Node (PStr ''root'') None []) p = Inl AttributeError \<or>
   parse_tree (Node (PStr ''root'') None []) p = Inr (None, None, None, None, None)"
proof (cases "extract_fields p")
  case (Inl e)
  then show ?thesis by (simp add: parse_tree_def extract_int_data_cases bindE_def)
next
  case (Inr d)
  then have e: "extract_int_data p = Inr (Some d)" by (simp add: extract_int_data_cases)
  show ?thesis
    by (simp add: parse_tree_def e bindE_def extract_no_srcMac [OF e] findall_by_attr_def)
qed

lemma oinc_process_packet_init:
  "snd (oinc_process_packet fd ic t ok (oinc_init pc si) p) = oinc_init pc si"
  using parse_tree_root [of p]
  by (auto simp: oinc_process_packet_def oinc_init_def manage_tree_def)

text \<open>
  Whatever frames a freshly constructed engine is fed, its tree stays the bare root and
  nothing is posted: no flow is ever inserted, so none is ever counted.
\<close>

lemma oinc_never_inserts: "snd (oinc_run fd ic (oinc_init pc si) frames) = oinc_init pc si"
proof (induction frames)
  case Nil
  show ?case by simp
next
  case (Cons f frames)
  obtain p t ok where f: "f = (p, t, ok)" by (cases f) auto
  obtain r s' where r: "oinc_process_packet fd ic t ok (oinc_init pc si) p = (r, s')"
    by (cases "oinc_process_packet fd ic t ok (oinc_init pc si) p") auto
  with oinc_process_packet_init [of fd ic t ok pc si p] have s': "s' = oinc_init pc si" by simp
  show ?case using Cons.IH by (simp add: f r s' split: sum.splits)
qed

text \<open>
  Claim C1 at the failing input. A fresh engine is fed the same complete telemetry frame
  five times within 4 ms. \<^verbatim>\<open>__parse_tree\<close> only searches the tree (and under the keys
  \<^verbatim>\<open>srcMac\<close>, \<^verbatim>\<open>srcIP\<close>, \<^verbatim>\<open>dstIP\<close>, \<^verbatim>\<open>packet_size\<close>, which the extracted record does not have):
  no level is created, the tree is still the bare root after the five frames, and nothing
  was counted or posted, whatever the float division and the identity test of the names
  do.
\<close>

theorem new_flow_never_inserted:
  "oinc_run float_div name_is_count (oinc_init 100 60)
     [(udp_flood_frame, 0, True), (udp_flood_frame, 1/1000, True), (udp_flood_frame, 2/1000, True),
      (udp_flood_frame, 3/1000, True), (udp_flood_frame, 4/1000, True)] =
   (Inr (), \<lparr>packet_count = 100, sample_interval = 60, posted = [],
            tree = Node (PStr ''root'') None []\<rparr>)"
  by (simp add: oinc_process_packet_def parse_tree_def udp_flood_frame_record bindE_def
      flood_record_def dict_get_def findall_by_attr_def oinc_init_def manage_tree_def)

subsection \<open>The counter of an existing flow\<close>

text \<open>
  Claim C4 as stated fails in its last sentence: four observations of a flow within one
  second bring the count to 4, but at intervals of 1/8 s the rate is 8 packets per second
  (the float quotients are exact here) and the flow is not flagged.
\<close>

theorem four_observations_not_flagged:
  "count_packets exact_div True flood_report
     \<lparr>c_value = 0, c_time = 0, c_pps = 0, c_attack = False\<rparr> [] [1/8, 1/4, 3/8, 1/2] =
   (Inr (), \<lparr>c_value = 4, c_time = 0, c_pps = 8, c_attack = False\<rparr>, [])"
  by (simp add: update_counter_def exact_div_def Let_def)

text \<open>
  The model follows the rate as the source computes it: when the float quotient of the
  count 57 and 0.57 s is the double just above 100, the observation that brings the count
  from 56 to 57 flags the flow and posts the report, although the exact quotient is 100.
\<close>

lemma rounded_rate_flags:
  assumes "float_div 57 (57/100) = 100 + 1 / 2 ^ 46"
  shows "update_counter float_div (57/100) ok rep
           \<lparr>c_value = 56, c_time = 0, c_pps = p, c_attack = False\<rparr> ps =
         (Inr (), \<lparr>c_value = 57, c_time = 0, c_pps = 100 + 1 / 2 ^ 46, c_attack = True\<rparr>,
          ps @ [rep])"
  using assms by (simp add: update_counter_def send_attack_def try_except_def Let_def)

lemma accurate_quotient_over_100:
  fixes f q :: rat
  assumes acc: "\<bar>f - q\<bar> \<le> q / 2 ^ 50" and big: "4000000 / 39999 \<le> q"
  shows "100 < f"
proof -
  have k: "q / 2 ^ 50 = q / 1125899906842624" by simp
  from acc have "q - q / 1125899906842624 \<le> f" unfolding k by linarith
  with big show ?thesis by linarith
qed

lemma quotient_bound:
  fixes d :: rat
  assumes pos: "0 < d" and le: "d \<le> 39999 / 1000000"
  shows "4000000 / 39999 \<le> 4 / d"
proof -
  from le have "d * 4000000 \<le> 4 * 39999" by simp
  with pos show ?thesis by (simp add: field_simps)
qed

text \<open>
  Claim C4, amended. On an observation of an existing flow at a time other than the
  window's start, \<^verbatim>\<open>__packet_with_mac\<close> increments the count and sets the rate to the
  float quotient of the new count and the elapsed time; it sets the flag and posts one
  report exactly when the new count exceeds 3, that rate exceeds 100 and the flag was not
  set; a flag that is set stays set. In particular, the observation that brings the count
  to 4 flags the flow exactly when the rate it computes exceeds 100, and it does when it
  comes at most 0.039999 s after the window's start and the float quotient is within
  \<open>2\<^sup>-\<^sup>5\<^sup>0\<close> of the exact one, relatively (two correctly rounded operations are).
\<close>

theorem counter_update_rule:
  assumes "t \<noteq> c_time c"
  shows "update_counter float_div t ok rep c ps =
     (Inr (),
      \<lparr>c_value = (if t - c_time c > 60 then 1 else c_value c + 1),
       c_time = (if t - c_time c > 60 then t else c_time c),
       c_pps = float_div (c_value c + 1) (t - c_time c),
       c_attack = (c_attack c \<or>
          (c_value c + 1 > 3 \<and> float_div (c_value c + 1) (t - c_time c) > 100))\<rparr>,
      (if c_value c + 1 > 3 \<and> float_div (c_value c + 1) (t - c_time c) > 100 \<and> \<not> c_attack c
       then ps @ [rep] else ps)) \<and>
     (c_attack c \<longrightarrow> c_attack (fst (snd (update_counter float_div t ok rep c ps)))) \<and>
     (c_value c = 3 \<and> \<not> c_attack c \<longrightarrow>
        c_attack (fst (snd (update_counter float_div t ok rep c ps))) =
          (float_div 4 (t - c_time c) > 100) \<and>
        snd (snd (update_counter float_div t ok rep c ps)) =
          (if float_div 4 (t - c_time c) > 100 then ps @ [rep] else ps)) \<and>
     (c_value c = 3 \<and> \<not> c_attack c \<and> 0 < t - c_time c \<and> t - c_time c \<le> 39999 / 1000000 \<and>
      \<bar>float_div 4 (t - c_time c) - 4 / (t - c_time c)\<bar> \<le> (4 / (t - c_time c)) / 2 ^ 50 \<longrightarrow>
        c_attack (fst (snd (update_counter float_div t ok rep c ps))) \<and>
        snd (snd (update_counter float_div t ok rep c ps)) = ps @ [rep])"
proof -
  let ?d = "t - c_time c"
  have main: "update_counter float_div t ok rep c ps =
     (Inr (),
      \<lparr>c_value = (if ?d > 60 then 1 else c_value c + 1),
       c_time = (if ?d > 60 then t else c_time c),
       c_pps = float_div (c_value c + 1) ?d,
       c_attack = (c_attack c \<or> (c_value c + 1 > 3 \<and> float_div (c_value c + 1) ?d > 100))\<rparr>,
      (if c_value c + 1 > 3 \<and> float_div (c_value c + 1) ?d > 100 \<and> \<not> c_attack c
       then ps @ [rep] else ps))"
    using assms by (auto simp: update_counter_def send_attack_def try_except_def Let_def)
  have fast: "float_div 4 ?d > 100"
    if pos: "0 < ?d" and le: "?d \<le> 39999 / 1000000"
      and acc: "\<bar>float_div 4 ?d - 4 / ?d\<bar> \<le> (4 / ?d) / 2 ^ 50"
    by (rule accurate_quotient_over_100 [OF acc quotient_bound [OF pos le]])
  show ?thesis
    unfolding main using fast by auto
qed

theorem counter_update_rule_witness:
  "update_counter exact_div (1/64) True flood_report
      \<lparr>c_value = 3, c_time = 0, c_pps = 0, c_attack = False\<rparr> [] =
     (Inr (), \<lparr>c_value = 4, c_time = 0, c_pps = 256, c_attack = True\<rparr>, [flood_report]) \<and>
   c_attack (fst (snd (update_counter exact_div 4 True flood_report
      \<lparr>c_value = 11, c_time = 0, c_pps = 400, c_attack = True\<rparr> [flood_report])))"
proof -
  let ?c = "\<lparr>c_value = 3, c_time = 0, c_pps = 0, c_attack = False\<rparr>"
  let ?f = "\<lparr>c_value = 11, c_time = 0, c_pps = 400, c_attack = True\<rparr>"
  have a: "(1/64 :: rat) \<noteq> c_time ?c" by simp
  have h: "c_value ?c = 3 \<and> \<not> c_attack ?c \<and> 0 < (1/64 :: rat) - c_time ?c \<and>
      (1/64 :: rat) - c_time ?c \<le> 39999 / 1000000 \<and>
      \<bar>exact_div 4 (1/64 - c_time ?c) - 4 / (1/64 - c_time ?c)\<bar> \<le>
        (4 / (1/64 - c_time ?c)) / 2 ^ 50"
    by (simp add: exact_div_def)
  note inst = counter_update_rule [of "1/64" ?c exact_div True flood_report "[]", OF a]
  from inst h
  have g1: "c_attack (fst (snd (update_counter exact_div (1/64) True flood_report ?c []))) \<and>
        snd (snd (update_counter exact_div (1/64) True flood_report ?c [])) = [] @ [flood_report]"
    by blast
  from inst have "update_counter exact_div (1/64) True flood_report ?c [] =
     (Inr (),
      \<lparr>c_value = (if (1/64 :: rat) - c_time ?c > 60 then 1 else c_value ?c + 1),
       c_time = (if (1/64 :: rat) - c_time ?c > 60 then 1/64 else c_time ?c),
       c_pps = exact_div (c_value ?c + 1) (1/64 - c_time ?c),
       c_attack = (c_attack ?c \<or>
          (c_value ?c + 1 > 3 \<and> exact_div (c_value ?c + 1) (1/64 - c_time ?c) > 100))\<rparr>,
      (if c_value ?c + 1 > 3 \<and> exact_div (c_value ?c + 1) (1/64 - c_time ?c) > 100 \<and>
          \<not> c_attack ?c
       then [] @ [flood_report] else []))"
    by (rule conjunct1)
  then have g0: "update_counter exact_div (1/64) True flood_report ?c [] =
     (Inr (), \<lparr>c_value = 4, c_time = 0, c_pps = 256, c_attack = True\<rparr>, [flood_report])"
    by (simp add: exact_div_def)
  have b: "(4 :: rat) \<noteq> c_time ?f" "c_attack ?f" by simp_all
  from counter_update_rule [of 4 ?f exact_div True flood_report "[flood_report]", OF b(1)] b(2)
  have g2: "c_attack (fst (snd (update_counter exact_div 4 True flood_report ?f [flood_report])))"
    by blast
  from g0 g1 g2 show ?thesis by blast
qed

text \<open>
  Claim C5 at the failing input. The engine is configured with a sample interval of 30 s;
  the flow's window started at 0 s with count 1 and a packet of the flow arrives at 45 s.
  The window is not reset: \<^verbatim>\<open>__packet_with_mac\<close> compares the elapsed time with the
  constant 60 and never reads \<^verbatim>\<open>self.sample_interval\<close>. The rate stored is the float
  quotient of 2 and 45 s.
\<close>

theorem configured_interval_ignored:
  "packet_with_mac float_div 45 True
     \<lparr>packet_count = 100, sample_interval = 30, posted = [],
      tree = flow_tree \<lparr>c_value = 1, c_time = 0, c_pps = 0, c_attack = False\<rparr>\<rparr>
     [0] [0, 0] [0, 0, 0] [0, 0, 0, 0] [0, 0, 0, 0, 0] =
   (Inr (), \<lparr>packet_count = 100, sample_interval = 30, posted = [],
      tree = flow_tree
        \<lparr>c_value = 2, c_time = 0, c_pps = float_div 2 45, c_attack = False\<rparr>\<rparr>)"
  by (simp add: packet_with_mac_def flow_tree_def update_counter_def Let_def)

end
